theory Spec2Isabelle
  imports Complex_Main
begin

section \<open>Python values: errors and list indexing\<close>

text \<open>
  The exceptions that the modelled part of
  \<^verbatim>\<open>opendeep/models/multi_layer/generative_stochastic_network.py\<close> can raise.
  \<open>IndexError\<close> comes from list indexing, \<open>AttributeError\<close> from calling
  \<^verbatim>\<open>append\<close> on \<^verbatim>\<open>None\<close>, \<open>AssertionError\<close> and \<open>NotImplementedError\<close> are
  raised explicitly by the class, \<open>ValueError\<close> is what the tensor library reports for
  operands whose shapes do not fit (and for joining an empty list of tensors), and
  \<open>MissingInputError\<close> is what it reports for a graph input without a value.
  \<open>NotModelled\<close> marks tensor operations on ranks that the class never produces.
\<close>

datatype error =
    IndexError
  | AttributeError
  | AssertionError
  | NotImplementedError
  | ValueError
  | MissingInputError
  | NotModelled

definition bind_err :: "error + 'a \<Rightarrow> ('a \<Rightarrow> error + 'b) \<Rightarrow> error + 'b" where
  "bind_err m f = (case m of Inl e \<Rightarrow> Inl e | Inr x \<Rightarrow> f x)"

text \<open>\<^verbatim>\<open>xs[i]\<close> for a non-negative index \<open>i\<close>.\<close>

definition py_get :: "'a list \<Rightarrow> nat \<Rightarrow> error + 'a" where
  "py_get xs i = (if i < length xs then Inr (xs ! i) else Inl IndexError)"

text \<open>\<^verbatim>\<open>xs[-1]\<close>.\<close>

definition py_last :: "'a list \<Rightarrow> error + 'a" where
  "py_last xs = (case xs of [] \<Rightarrow> Inl IndexError | _ # _ \<Rightarrow> Inr (last xs))"

text \<open>\<^verbatim>\<open>range(start, stop, 2)\<close> for non-negative \<open>start\<close>.\<close>

definition range2 :: "nat \<Rightarrow> nat \<Rightarrow> nat list" where
  "range2 start stop = filter (\<lambda>i. even (i - start)) [start..<stop]"

section \<open>Symbolic tensor expressions\<close>

text \<open>
  The class never computes with numbers: every \<^verbatim>\<open>T.dot\<close>, \<^verbatim>\<open>+\<close>, \<^verbatim>\<open>.T\<close>,
  activation or noise call builds a node of a symbolic expression graph, which is
  evaluated later on concrete arrays. The model keeps the two levels apart: the
  functions of the class build values of type \<open>expr\<close>, and \<open>eval\<close> (below)
  gives an expression its array value.

  Leaves are the named graph inputs and shared variables that the class creates.
\<close>

datatype vname =
    X_input
  | X_sampling
  | H_sampling nat
  | W_shared nat nat
  | b_shared nat
  | Shared string
  | Hook nat

text \<open>
  An activation or cost function is a Python callable: one looked up in the
  registry by its name, or one supplied by the user.
\<close>

datatype callable = Registry string | UserFn nat

text \<open>
  Every noise node draws from a random stream of its own, which the generator
  \<^verbatim>\<open>MRG\<close> hands out when the node is built; the stream is identified by the number
  of streams handed out before it. \<open>AddGaussian\<close>, \<open>SaltAndPepper\<close> are the nodes built by
  \<^verbatim>\<open>add_gaussian(x, std, MRG)\<close> and \<^verbatim>\<open>salt_and_pepper(x, level, MRG)\<close> of
  \<^verbatim>\<open>opendeep.utils.noise\<close>, \<open>Binomial\<close> the one built by \<^verbatim>\<open>MRG.binomial(p=x, ...)\<close>.
  \<open>Slice a b e\<close> is \<^verbatim>\<open>e[a:b]\<close>, \<open>Concatenate es\<close> is \<^verbatim>\<open>T.concatenate(es, axis=1)\<close>.
\<close>

datatype expr =
    Var vname
  | Dot expr expr
  | Transpose expr
  | Add expr expr
  | ZerosLike expr
  | Apply callable expr
  | Cost callable expr expr
  | AddGaussian nat expr expr
  | Binomial nat expr
  | SaltAndPepper nat expr expr
  | Slice nat nat expr
  | Concatenate "expr list"

section \<open>The layer update\<close>

text \<open>
  The arguments that every graph helper passes on unchanged (the random generator is
  threaded separately, since building a noise node advances it).
\<close>

record gsn_args =
  add_noise :: bool
  noiseless_h1 :: bool
  hidden_add_noise_sigma :: expr
  input_salt_and_pepper :: expr
  input_sampling :: bool
  visible_activation :: callable
  hidden_activation :: callable

text \<open>
  The first statement of \<^verbatim>\<open>simple_update_layer\<close>: the affine combination that is
  assigned to \<^verbatim>\<open>hiddens[i]\<close>, with the list lookups it makes (the lookups of the
  \<^verbatim>\<open>log.debug\<close> line in front of it included).
\<close>

definition layer_input :: "expr list \<Rightarrow> expr list \<Rightarrow> expr list \<Rightarrow> nat \<Rightarrow> error + expr" where
  "layer_input hs weights_list bias_list i =
    (if i = 0 then
       bind_err (py_get weights_list i) (\<lambda>w.
       bind_err (py_get hs (i + 1)) (\<lambda>h_next.
       bind_err (py_get bias_list i) (\<lambda>b.
         Inr (Add (Dot h_next (Transpose w)) b))))
     else if i + 1 = length hs then
       bind_err (py_get weights_list (i - 1)) (\<lambda>w_prev.
       bind_err (py_get hs (i - 1)) (\<lambda>h_prev.
       bind_err (py_get bias_list i) (\<lambda>b.
         Inr (Add (Dot h_prev w_prev) b))))
     else
       bind_err (py_get weights_list (i - 1)) (\<lambda>w_prev.
       bind_err (py_get weights_list i) (\<lambda>w.
       bind_err (py_get hs (i + 1)) (\<lambda>h_next.
       bind_err (py_get hs (i - 1)) (\<lambda>h_prev.
       bind_err (py_get bias_list i) (\<lambda>b.
         Inr (Add (Add (Dot h_next (Transpose w)) (Dot h_prev w_prev)) b)))))))"

text \<open>
  \<^verbatim>\<open>simple_update_layer(hiddens, weights_list, bias_list, p_X_chain, i, ...)\<close>.
  The Python mutates \<^verbatim>\<open>hiddens\<close> and \<^verbatim>\<open>p_X_chain\<close> in place and advances \<^verbatim>\<open>MRG\<close>;
  the model returns the three. \<^verbatim>\<open>p_X_chain\<close> is \<^verbatim>\<open>None\<close> when the odd layers are
  updated. The successive assignments to \<^verbatim>\<open>hiddens[i]\<close> are the successive values
  \<open>h0\<close>, \<open>h1\<close>, \<open>h2\<close>, \<open>h3\<close>; the list is written once, at the end, which is the same
  list since \<open>i\<close> is in range whenever \<open>layer_input\<close> succeeds.
\<close>

definition simple_update_layer ::
  "expr list \<Rightarrow> expr list \<Rightarrow> expr list \<Rightarrow> expr list option \<Rightarrow> nat \<Rightarrow> gsn_args \<Rightarrow> nat
    \<Rightarrow> error + (expr list \<times> expr list option \<times> nat)" where
  "simple_update_layer hs weights_list bias_list p_X_chain i a MRG =
    bind_err (layer_input hs weights_list bias_list i) (\<lambda>h0.
      let noise = (if i = 1 \<and> noiseless_h1 a then False else add_noise a);
          h1 = (if i \<noteq> 0 \<and> noise then AddGaussian MRG (hidden_add_noise_sigma a) h0 else h0);
          MRG1 = (if i \<noteq> 0 \<and> noise then Suc MRG else MRG);
          h2 = (if i = 0 then Apply (visible_activation a) h1
                else Apply (hidden_activation a) h1);
          h3 = (if i \<noteq> 0 \<and> noise then AddGaussian MRG1 (hidden_add_noise_sigma a) h2 else h2);
          MRG2 = (if i \<noteq> 0 \<and> noise then Suc MRG1 else MRG1)
      in if i = 0 then
           (case p_X_chain of
              None \<Rightarrow> Inl AttributeError
            | Some chain \<Rightarrow>
                let sampled = (if input_sampling a then Binomial MRG2 h3 else h3);
                    MRG3 = (if input_sampling a then Suc MRG2 else MRG2)
                in Inr (hs[i := SaltAndPepper MRG3 (input_salt_and_pepper a) sampled],
                        Some (chain @ [h3]), Suc MRG3))
         else Inr (hs[i := h3], p_X_chain, MRG2))"

text \<open>The loop \<^verbatim>\<open>for i in ...: GSN.simple_update_layer(hiddens, ..., i, ...)\<close>.\<close>

fun update_loop ::
  "nat list \<Rightarrow> expr list \<Rightarrow> expr list \<Rightarrow> expr list \<Rightarrow> expr list option \<Rightarrow> gsn_args \<Rightarrow> nat
    \<Rightarrow> error + (expr list \<times> expr list option \<times> nat)" where
  "update_loop [] hs weights_list bias_list p_X_chain a MRG = Inr (hs, p_X_chain, MRG)"
| "update_loop (i # rest) hs weights_list bias_list p_X_chain a MRG =
    (case simple_update_layer hs weights_list bias_list p_X_chain i a MRG of
       Inl e \<Rightarrow> Inl e
     | Inr (hs', chain', MRG') \<Rightarrow> update_loop rest hs' weights_list bias_list chain' a MRG')"

text \<open>\<^verbatim>\<open>update_odd_layers\<close>: the layers 1, 3, ..., with \<^verbatim>\<open>None\<close> for the chain.\<close>

definition update_odd_layers ::
  "expr list \<Rightarrow> expr list \<Rightarrow> expr list \<Rightarrow> gsn_args \<Rightarrow> nat \<Rightarrow> error + (expr list \<times> nat)" where
  "update_odd_layers hs weights_list bias_list a MRG =
    (case update_loop (range2 1 (length hs)) hs weights_list bias_list None a MRG of
       Inl e \<Rightarrow> Inl e
     | Inr (hs', _, MRG') \<Rightarrow> Inr (hs', MRG'))"

text \<open>\<^verbatim>\<open>update_even_layers\<close>: the layers 0, 2, ..., with the caller's chain.\<close>

definition update_even_layers ::
  "expr list \<Rightarrow> expr list \<Rightarrow> expr list \<Rightarrow> expr list option \<Rightarrow> gsn_args \<Rightarrow> nat
    \<Rightarrow> error + (expr list \<times> expr list option \<times> nat)" where
  "update_even_layers hs weights_list bias_list p_X_chain a MRG =
    update_loop (range2 0 (length hs)) hs weights_list bias_list p_X_chain a MRG"

text \<open>\<^verbatim>\<open>update_layers\<close>: the odd layers, then the even layers.\<close>

definition update_layers ::
  "expr list \<Rightarrow> expr list \<Rightarrow> expr list \<Rightarrow> expr list option \<Rightarrow> gsn_args \<Rightarrow> nat
    \<Rightarrow> error + (expr list \<times> expr list option \<times> nat)" where
  "update_layers hs weights_list bias_list p_X_chain a MRG =
    bind_err (update_odd_layers hs weights_list bias_list a MRG) (\<lambda>(hs', MRG').
      update_even_layers hs' weights_list bias_list p_X_chain a MRG')"

text \<open>\<^verbatim>\<open>update_layers_reverse\<close>: the even layers, then the odd layers.\<close>

definition update_layers_reverse ::
  "expr list \<Rightarrow> expr list \<Rightarrow> expr list \<Rightarrow> expr list option \<Rightarrow> gsn_args \<Rightarrow> nat
    \<Rightarrow> error + (expr list \<times> expr list option \<times> nat)" where
  "update_layers_reverse hs weights_list bias_list p_X_chain a MRG =
    bind_err (update_even_layers hs weights_list bias_list p_X_chain a MRG) (\<lambda>(hs', chain', MRG').
      bind_err (update_odd_layers hs' weights_list bias_list a MRG') (\<lambda>(hs'', MRG'').
        Inr (hs'', chain', MRG'')))"

section \<open>The graph builders\<close>

text \<open>
  The hidden layers are initialised with zeros of the shapes that the weight chain
  implies: \<^verbatim>\<open>for w in weights_list: hiddens.append(T.zeros_like(T.dot(hiddens[-1], w)))\<close>,
  starting from \<^verbatim>\<open>hiddens = [X_init]\<close>.
\<close>

definition init_hiddens :: "expr \<Rightarrow> expr list \<Rightarrow> expr list" where
  "init_hiddens X_init weights_list =
    foldl (\<lambda>hs w. hs @ [ZerosLike (Dot (last hs) w)]) [X_init] weights_list"

text \<open>\<^verbatim>\<open>for i in range(walkbacks): GSN.update_layers(hiddens, ..., p_X_chain, ...)\<close>.\<close>

fun walkback_loop ::
  "nat \<Rightarrow> expr list \<Rightarrow> expr list \<Rightarrow> expr list \<Rightarrow> expr list option \<Rightarrow> gsn_args \<Rightarrow> nat
    \<Rightarrow> error + (expr list \<times> expr list option \<times> nat)" where
  "walkback_loop 0 hs weights_list bias_list p_X_chain a MRG = Inr (hs, p_X_chain, MRG)"
| "walkback_loop (Suc n) hs weights_list bias_list p_X_chain a MRG =
    (case update_layers hs weights_list bias_list p_X_chain a MRG of
       Inl e \<Rightarrow> Inl e
     | Inr (hs', chain', MRG') \<Rightarrow> walkback_loop n hs' weights_list bias_list chain' a MRG')"

text \<open>
  \<^verbatim>\<open>build_gsn(X, weights_list, bias_list, ..., walkbacks)\<close> returns
  \<^verbatim>\<open>(p_X_chain, hiddens)\<close>; the model returns the state of the generator as well.
  \<^verbatim>\<open>range(walkbacks)\<close> is empty for a negative count. The chain starts as the empty
  list, so it is a list at the end; the \<open>None\<close> case below cannot arise.
\<close>

definition build_gsn ::
  "expr \<Rightarrow> expr list \<Rightarrow> expr list \<Rightarrow> gsn_args \<Rightarrow> nat \<Rightarrow> int
    \<Rightarrow> error + (expr list \<times> expr list \<times> nat)" where
  "build_gsn X weights_list bias_list a MRG walkbacks =
    (let X_init = (if add_noise a then SaltAndPepper MRG (input_salt_and_pepper a) X else X);
         MRG0 = (if add_noise a then Suc MRG else MRG);
         hs = init_hiddens X_init weights_list
     in case walkback_loop (nat walkbacks) hs weights_list bias_list (Some []) a MRG0 of
          Inl e \<Rightarrow> Inl e
        | Inr (hs', None, MRG') \<Rightarrow> Inl AttributeError
        | Inr (hs', Some chain, MRG') \<Rightarrow> Inr (chain, hs', MRG'))"

text \<open>\<^verbatim>\<open>for i in range(walkbacks): GSN.update_layers_reverse(hiddens, ..., p_X_chain, ...)\<close>.\<close>

fun walkback_loop_reverse ::
  "nat \<Rightarrow> expr list \<Rightarrow> expr list \<Rightarrow> expr list \<Rightarrow> expr list option \<Rightarrow> gsn_args \<Rightarrow> nat
    \<Rightarrow> error + (expr list \<times> expr list option \<times> nat)" where
  "walkback_loop_reverse 0 hs weights_list bias_list p_X_chain a MRG = Inr (hs, p_X_chain, MRG)"
| "walkback_loop_reverse (Suc n) hs weights_list bias_list p_X_chain a MRG =
    (case update_layers_reverse hs weights_list bias_list p_X_chain a MRG of
       Inl e \<Rightarrow> Inl e
     | Inr (hs', chain', MRG') \<Rightarrow>
         walkback_loop_reverse n hs' weights_list bias_list chain' a MRG')"

text \<open>
  \<^verbatim>\<open>numpy.sum(costs)\<close> on a non-empty list of symbolic scalars adds them up from the
  left, starting with the first.
\<close>

definition numpy_sum :: "expr \<Rightarrow> expr list \<Rightarrow> expr" where
  "numpy_sum c cs = foldl Add c cs"

text \<open>
  \<^verbatim>\<open>build_gsn_given_hiddens(X, hiddens, weights_list, bias_list, ..., walkbacks,
  cost_function)\<close> returns \<^verbatim>\<open>(p_X_chain, hiddens, cost, show_cost)\<close>.
  \<^verbatim>\<open>costs[-1]\<close> raises when the chain is empty, before the sum is taken.
\<close>

definition build_gsn_given_hiddens ::
  "expr \<Rightarrow> expr list \<Rightarrow> expr list \<Rightarrow> expr list \<Rightarrow> gsn_args \<Rightarrow> nat \<Rightarrow> int \<Rightarrow> callable
    \<Rightarrow> error + (expr list \<times> expr list \<times> expr \<times> expr \<times> nat)" where
  "build_gsn_given_hiddens X hs weights_list bias_list a MRG walkbacks cost_function =
    (case walkback_loop_reverse (nat walkbacks) hs weights_list bias_list (Some []) a MRG of
       Inl e \<Rightarrow> Inl e
     | Inr (hs', None, MRG') \<Rightarrow> Inl AttributeError
     | Inr (hs', Some chain, MRG') \<Rightarrow>
         (let costs = map (\<lambda>rX. Cost cost_function rX X) chain
          in bind_err (py_last costs) (\<lambda>show_cost.
               Inr (chain, hs', numpy_sum (hd costs) (tl costs), show_cost, MRG'))))"

section \<open>Packing and unpacking the hidden layers\<close>

text \<open>
  \<^verbatim>\<open>T.concatenate(tensors, axis=1)\<close> at the time the graph is built: the tensor
  library refuses an empty list and returns the only tensor of a one-element list as
  it is.
\<close>

definition concatenate :: "expr list \<Rightarrow> error + expr" where
  "concatenate es =
    (case es of [] \<Rightarrow> Inl ValueError | [e] \<Rightarrow> Inr e | _ # _ # _ \<Rightarrow> Inr (Concatenate es))"

text \<open>The entries \<^verbatim>\<open>layer\<close> of \<^verbatim>\<open>enumerate(hiddens_list)\<close> with \<^verbatim>\<open>idx % 2 != 0\<close>.\<close>

fun odd_layers :: "'a list \<Rightarrow> 'a list" where
  "odd_layers [] = []"
| "odd_layers [x] = []"
| "odd_layers (x # y # rest) = y # odd_layers rest"

definition pack_hiddens :: "expr list \<Rightarrow> error + expr" where
  "pack_hiddens hiddens_list = concatenate (odd_layers hiddens_list)"

text \<open>
  The loop of \<^verbatim>\<open>unpack_hiddens\<close> over \<^verbatim>\<open>enumerate(self.weights_list)\<close>; \<open>idx\<close> counts
  the weights already seen. \<^verbatim>\<open>idx/2\<close> is Python 2's integer division.
\<close>

fun unpack_loop :: "nat \<Rightarrow> expr list \<Rightarrow> nat list \<Rightarrow> expr \<Rightarrow> expr list \<Rightarrow> error + expr list" where
  "unpack_loop idx [] sizes hiddens_tensor h_list = Inr h_list"
| "unpack_loop idx (w # ws) sizes hiddens_tensor h_list =
    (if idx mod 2 \<noteq> 0 then
       unpack_loop (Suc idx) ws sizes hiddens_tensor (h_list @ [ZerosLike (Dot (last h_list) w)])
     else
       bind_err (py_get sizes idx) (\<lambda>s0.
       bind_err (py_get sizes (idx + 1)) (\<lambda>s1.
         unpack_loop (Suc idx) ws sizes hiddens_tensor
           (h_list @ [Transpose (Slice ((idx div 2) * s0) ((idx div 2 + 1) * s1)
                                   (Transpose hiddens_tensor))]))))"

section \<open>The model object\<close>

text \<open>
  The attributes of a \<^verbatim>\<open>GSN\<close> object that the modelled methods read or write. The
  attributes in the second group are set by \<^verbatim>\<open>build_computation_graph\<close>; before that
  they do not exist (\<^verbatim>\<open>hasattr\<close> is false), which is \<open>None\<close> here. A compiled function
  is given by its inputs and its outputs.
\<close>

record gsn =
  self_N_input :: nat
  self_layers :: int
  self_walkbacks :: int
  self_noiseless_h1 :: bool
  self_hidden_add_noise_sigma :: expr
  self_input_salt_and_pepper :: expr
  self_input_sampling :: bool
  self_hidden_size :: nat
  self_layer_sizes :: "nat list"
  self_hidden_activation :: callable
  self_visible_activation :: callable
  self_cost_function :: callable
  self_X :: expr
  self_MRG :: nat
  self_weights_list :: "expr list"
  self_bias_list :: "expr list"
  self_show_cost :: "expr option"
  self_cost :: "expr option"
  self_monitor :: "expr option"
  self_output :: "expr option"
  self_hiddens :: "expr list option"
  self_f_predict :: "(expr list \<times> expr) option"
  self_f_noise :: "(expr list \<times> expr) option"
  self_f_sample :: "(expr list \<times> expr list) option"
  self_f_monitors :: "(expr list \<times> expr list) option"

text \<open>
  \<^verbatim>\<open>unpack_hiddens(self, hiddens_tensor)\<close>: the list starts with zeros like the input,
  and the loop appends one layer for every weight.
\<close>

definition unpack_hiddens :: "gsn \<Rightarrow> expr \<Rightarrow> error + expr list" where
  "unpack_hiddens self hiddens_tensor =
    unpack_loop 0 (self_weights_list self) (self_layer_sizes self) hiddens_tensor
      [ZerosLike (self_X self)]"

section \<open>Array values and the evaluation of expressions\<close>

text \<open>
  The value of a tensor expression: a scalar, a vector, or a matrix given by its
  number of columns and its rows (so a matrix without rows still has a width).
  \<open>is_matrix v n c\<close> says that \<open>v\<close> is a well-formed matrix of shape \<open>(n, c)\<close>.
\<close>

datatype 'a tval = Scalar 'a | Vector "'a list" | Matrix nat "'a list list"

definition is_matrix :: "'a tval \<Rightarrow> nat \<Rightarrow> nat \<Rightarrow> bool" where
  "is_matrix v n c =
    (case v of
       Matrix c' rows \<Rightarrow> c' = c \<and> length rows = n \<and> list_all (\<lambda>r. length r = c) rows
     | _ \<Rightarrow> False)"

definition is_vector :: "'a tval \<Rightarrow> nat \<Rightarrow> bool" where
  "is_vector v c = (case v of Vector xs \<Rightarrow> length xs = c | _ \<Rightarrow> False)"

text \<open>
  \<^verbatim>\<open>T.dot\<close> of two matrices; the inner dimensions must agree. The class applies it
  to matrices only.
\<close>

fun dot_val :: "'a::semiring_1 tval \<Rightarrow> 'a tval \<Rightarrow> error + 'a tval" where
  "dot_val (Matrix k A) (Matrix c B) =
    (if k = length B
     then Inr (Matrix c (map (\<lambda>r. map (\<lambda>j. sum_list (map2 (\<lambda>x brow. x * brow ! j) r B)) [0..<c]) A))
     else Inl ValueError)"
| "dot_val _ _ = Inl NotModelled"

text \<open>\<^verbatim>\<open>.T\<close>; a vector or scalar is its own transpose.\<close>

fun transpose_val :: "'a tval \<Rightarrow> 'a tval" where
  "transpose_val (Matrix c rows) = Matrix (length rows) (map (\<lambda>j. map (\<lambda>r. r ! j) rows) [0..<c])"
| "transpose_val v = v"

text \<open>
  \<^verbatim>\<open>+\<close>: elementwise on equal shapes; a vector is added to every row of a matrix
  (it broadcasts along the first axis), a scalar to every element.
\<close>

fun add_val :: "'a::semiring_1 tval \<Rightarrow> 'a tval \<Rightarrow> error + 'a tval" where
  "add_val (Matrix c A) (Matrix c' B) =
    (if c = c' \<and> length A = length B then Inr (Matrix c (map2 (map2 (+)) A B))
     else Inl ValueError)"
| "add_val (Matrix c A) (Vector v) =
    (if length v = c then Inr (Matrix c (map (\<lambda>r. map2 (+) r v) A)) else Inl ValueError)"
| "add_val (Vector v) (Matrix c A) =
    (if length v = c then Inr (Matrix c (map (\<lambda>r. map2 (+) v r) A)) else Inl ValueError)"
| "add_val (Vector u) (Vector v) =
    (if length u = length v then Inr (Vector (map2 (+) u v)) else Inl ValueError)"
| "add_val (Scalar s) (Scalar t) = Inr (Scalar (s + t))"
| "add_val (Scalar s) (Vector v) = Inr (Vector (map ((+) s) v))"
| "add_val (Vector v) (Scalar s) = Inr (Vector (map (\<lambda>x. x + s) v))"
| "add_val (Scalar s) (Matrix c A) = Inr (Matrix c (map (map ((+) s)) A))"
| "add_val (Matrix c A) (Scalar s) = Inr (Matrix c (map (map (\<lambda>x. x + s)) A))"

text \<open>\<^verbatim>\<open>T.zeros_like\<close>.\<close>

fun zeros_like_val :: "'a::semiring_1 tval \<Rightarrow> 'a tval" where
  "zeros_like_val (Matrix c rows) = Matrix c (replicate (length rows) (replicate c 0))"
| "zeros_like_val (Vector v) = Vector (replicate (length v) 0)"
| "zeros_like_val (Scalar s) = Scalar 0"

text \<open>\<^verbatim>\<open>v[a:b]\<close> along the first axis, for non-negative bounds.\<close>

fun slice_val :: "nat \<Rightarrow> nat \<Rightarrow> 'a tval \<Rightarrow> error + 'a tval" where
  "slice_val a b (Matrix c rows) = Inr (Matrix c (take (b - a) (drop a rows)))"
| "slice_val a b (Vector v) = Inr (Vector (take (b - a) (drop a v)))"
| "slice_val a b (Scalar s) = Inl IndexError"

text \<open>
  \<^verbatim>\<open>T.concatenate(..., axis=1)\<close> on values: matrices with the same number of rows are
  joined row by row.
\<close>

fun join2 :: "'a tval \<Rightarrow> 'a tval \<Rightarrow> error + 'a tval" where
  "join2 (Matrix c A) (Matrix c' B) =
    (if length A = length B then Inr (Matrix (c + c') (map2 (@) A B)) else Inl ValueError)"
| "join2 _ _ = Inl ValueError"

fun join_val :: "'a tval list \<Rightarrow> error + 'a tval" where
  "join_val [] = Inl ValueError"
| "join_val [v] = (case v of Matrix c rows \<Rightarrow> Inr v | _ \<Rightarrow> Inl ValueError)"
| "join_val (v # w # vs) = bind_err (join_val (w # vs)) (\<lambda>u. join2 v u)"

fun sequence_err :: "(error + 'a) list \<Rightarrow> error + 'a list" where
  "sequence_err [] = Inr []"
| "sequence_err (m # ms) = bind_err m (\<lambda>x. bind_err (sequence_err ms) (\<lambda>xs. Inr (x # xs)))"

text \<open>
  What an evaluation of the graph is given: the values of the graph inputs and shared
  variables, the functions that the callables compute, and for every random stream
  the function that its draw of this run applies to the node's input (for
  \<open>AddGaussian\<close> and \<open>SaltAndPepper\<close> also given the value of the noise level).
  Two runs of the same graph differ in the draws only.
\<close>

record 'a env =
  var_val :: "vname \<Rightarrow> 'a tval option"
  fn_val :: "callable \<Rightarrow> 'a tval \<Rightarrow> error + 'a tval"
  cost_val :: "callable \<Rightarrow> 'a tval \<Rightarrow> 'a tval \<Rightarrow> error + 'a tval"
  gaussian_draw :: "nat \<Rightarrow> 'a tval \<Rightarrow> 'a tval \<Rightarrow> error + 'a tval"
  binomial_draw :: "nat \<Rightarrow> 'a tval \<Rightarrow> error + 'a tval"
  salt_and_pepper_draw :: "nat \<Rightarrow> 'a tval \<Rightarrow> 'a tval \<Rightarrow> error + 'a tval"

primrec eval :: "'a::semiring_1 env \<Rightarrow> expr \<Rightarrow> error + 'a tval" where
  "eval env (Var x) = (case var_val env x of None \<Rightarrow> Inl MissingInputError | Some v \<Rightarrow> Inr v)"
| "eval env (Dot e1 e2) =
    bind_err (eval env e1) (\<lambda>v1. bind_err (eval env e2) (\<lambda>v2. dot_val v1 v2))"
| "eval env (Transpose e) = bind_err (eval env e) (\<lambda>v. Inr (transpose_val v))"
| "eval env (Add e1 e2) =
    bind_err (eval env e1) (\<lambda>v1. bind_err (eval env e2) (\<lambda>v2. add_val v1 v2))"
| "eval env (ZerosLike e) = bind_err (eval env e) (\<lambda>v. Inr (zeros_like_val v))"
| "eval env (Apply f e) = bind_err (eval env e) (fn_val env f)"
| "eval env (Cost f e1 e2) =
    bind_err (eval env e1) (\<lambda>v1. bind_err (eval env e2) (\<lambda>v2. cost_val env f v1 v2))"
| "eval env (AddGaussian k s e) =
    bind_err (eval env s) (\<lambda>sv. bind_err (eval env e) (\<lambda>v. gaussian_draw env k sv v))"
| "eval env (Binomial k e) = bind_err (eval env e) (binomial_draw env k)"
| "eval env (SaltAndPepper k l e) =
    bind_err (eval env l) (\<lambda>lv. bind_err (eval env e) (\<lambda>v. salt_and_pepper_draw env k lv v))"
| "eval env (Slice a b e) = bind_err (eval env e) (slice_val a b)"
| "eval env (Concatenate es) = bind_err (sequence_err (map (eval env) es)) join_val"

text \<open>A function on values that keeps the shape of every matrix.\<close>

definition shape_preserving :: "('a tval \<Rightarrow> error + 'a tval) \<Rightarrow> bool" where
  "shape_preserving f = (\<forall>v n c. is_matrix v n c \<longrightarrow> (\<exists>v'. f v = Inr v' \<and> is_matrix v' n c))"

section \<open>A small network, for concrete instances\<close>

text \<open>
  Two hidden layers over the graph input \<open>X\<close>, with the shared variables that the
  constructor creates for them, the default flags and the default activations.
\<close>

definition example_args :: gsn_args where
  "example_args =
    \<lparr>add_noise = True, noiseless_h1 = True,
     hidden_add_noise_sigma = Var (Shared ''hidden_add_noise_sigma''),
     input_salt_and_pepper = Var (Shared ''input_salt_and_pepper''),
     input_sampling = True,
     visible_activation = Registry ''sigmoid'',
     hidden_activation = Registry ''tanh''\<rparr>"

definition example_weights :: "expr list" where
  "example_weights = [Var (W_shared 0 1), Var (W_shared 1 2)]"

definition example_biases :: "expr list" where
  "example_biases = [Var (b_shared 0), Var (b_shared 1), Var (b_shared 2)]"

definition example_hiddens :: "expr list" where
  "example_hiddens = [Var X_input, Var (H_sampling 1), Var (H_sampling 2)]"

section \<open>Shapes of evaluated expressions\<close>

text \<open>
  \<open>has_shape env e n c\<close>: in the run \<open>env\<close> the expression \<open>e\<close> evaluates, to a matrix
  of shape \<open>(n, c)\<close>; \<open>has_length env e c\<close>: it evaluates to a vector of length \<open>c\<close>.
\<close>

definition has_shape :: "'a::semiring_1 env \<Rightarrow> expr \<Rightarrow> nat \<Rightarrow> nat \<Rightarrow> bool" where
  "has_shape env e n c = (case eval env e of Inl _ \<Rightarrow> False | Inr v \<Rightarrow> is_matrix v n c)"

definition has_length :: "'a::semiring_1 env \<Rightarrow> expr \<Rightarrow> nat \<Rightarrow> bool" where
  "has_length env e c = (case eval env e of Inl _ \<Rightarrow> False | Inr v \<Rightarrow> is_vector v c)"

text \<open>
  The layers \<open>hs\<close> follow the layer-size schedule \<open>sizes\<close> for a batch of \<open>n\<close> rows:
  layer \<open>i\<close> has shape \<open>(n, sizes[i])\<close>.
\<close>

definition layers_shaped :: "'a::semiring_1 env \<Rightarrow> nat \<Rightarrow> nat list \<Rightarrow> expr list \<Rightarrow> bool" where
  "layers_shaped env n sizes hs = list_all2 (\<lambda>h c. has_shape env h n c) hs sizes"

text \<open>
  The parameters follow the schedule as the constructor makes them: weight \<open>i\<close> has
  shape \<open>(sizes[i], sizes[i+1])\<close> and bias \<open>i\<close> is a vector of length \<open>sizes[i]\<close>.
\<close>

definition params_shaped ::
  "'a::semiring_1 env \<Rightarrow> nat list \<Rightarrow> expr list \<Rightarrow> expr list \<Rightarrow> bool" where
  "params_shaped env sizes weights_list bias_list =
    (length weights_list + 1 = length sizes
     \<and> (\<forall>i<length weights_list. has_shape env (weights_list ! i) (sizes ! i) (sizes ! (i + 1)))
     \<and> list_all2 (\<lambda>b c. has_length env b c) bias_list sizes)"

text \<open>
  The activations and the noise of a run keep shapes, as elementwise functions and
  draws of the input's size do, and the two noise levels have a value.
\<close>

definition draws_shaped :: "'a::semiring_1 env \<Rightarrow> gsn_args \<Rightarrow> bool" where
  "draws_shaped env a =
    (shape_preserving (fn_val env (visible_activation a))
     \<and> shape_preserving (fn_val env (hidden_activation a))
     \<and> (\<forall>k s. shape_preserving (gaussian_draw env k s))
     \<and> (\<forall>k. shape_preserving (binomial_draw env k))
     \<and> (\<forall>k l. shape_preserving (salt_and_pepper_draw env k l))
     \<and> (\<exists>s. eval env (hidden_add_noise_sigma a) = Inr s)
     \<and> (\<exists>l. eval env (input_salt_and_pepper a) = Inr l))"

section \<open>A concrete run, for concrete instances\<close>

text \<open>
  Modelled from the spec: \<^verbatim>\<open>salt_and_pepper\<close> lives in \<^verbatim>\<open>opendeep.utils.noise\<close>, which is
  not among the sources. The spec describes salt-and-pepper noise as a masking
  corruption that independently zeroes or maximizes a random subset of the input
  features. A draw of the node therefore is a mask that says for every cell whether it
  is kept, set to zero or set to one; the corruption level only determines how likely
  each mask is.
\<close>

datatype mask = Keep | SetZero | SetOne

fun corrupt :: "mask \<Rightarrow> 'a::semiring_1 \<Rightarrow> 'a" where
  "corrupt Keep x = x"
| "corrupt SetZero x = 0"
| "corrupt SetOne x = 1"

fun salt_and_pepper_mask :: "(nat \<Rightarrow> nat \<Rightarrow> mask) \<Rightarrow> 'a::semiring_1 tval \<Rightarrow> error + 'a tval" where
  "salt_and_pepper_mask d (Matrix c rows) =
    Inr (Matrix c (map (\<lambda>i. map (\<lambda>j. corrupt (d i j) (rows ! i ! j)) [0..<c]) [0..<length rows]))"
| "salt_and_pepper_mask d (Vector xs) =
    Inr (Vector (map (\<lambda>j. corrupt (d 0 j) (xs ! j)) [0..<length xs]))"
| "salt_and_pepper_mask d (Scalar s) = Inr (Scalar (corrupt (d 0 0) s))"

text \<open>
  Values for the small network and for the object below: one input row of two
  features, one unit in each hidden layer (with the value \<open>i\<close> in layer \<open>i\<close> where a
  hidden state is supplied from outside), weights one and biases zero, and a packed
  tensor of two columns supplied through a hook.
\<close>

fun example_values :: "vname \<Rightarrow> rat tval option" where
  "example_values X_input = Some (Matrix 2 [[1, 0]])"
| "example_values (W_shared i j) =
    (if i = 0 \<and> j = 1 then Some (Matrix 1 [[1], [1]])
     else if (i = 1 \<and> j = 2) \<or> (i = 2 \<and> j = 3) then Some (Matrix 1 [[1]])
     else None)"
| "example_values (b_shared i) =
    (if i = 0 then Some (Vector [0, 0])
     else if i = 1 \<or> i = 2 \<or> i = 3 then Some (Vector [0])
     else None)"
| "example_values (H_sampling i) =
    (if i = 1 then Some (Matrix 1 [[1]])
     else if i = 2 then Some (Matrix 1 [[2]])
     else if i = 3 then Some (Matrix 1 [[3]])
     else None)"
| "example_values (Hook i) = (if i = 0 then Some (Matrix 2 [[5, 7]]) else None)"
| "example_values (Shared name) =
    (if name = ''hidden_add_noise_sigma'' then Some (Scalar 2)
     else if name = ''input_salt_and_pepper'' then Some (Scalar (2 / 5))
     else None)"
| "example_values _ = None"

text \<open>The sum of the squared differences of two matrices, as a cost.\<close>

fun squared_error :: "rat tval \<Rightarrow> rat tval \<Rightarrow> error + rat tval" where
  "squared_error (Matrix c A) (Matrix c' B) =
    (if c = c' \<and> length A = length B
     then Inr (Scalar (sum_list (map2 (\<lambda>r s. sum_list (map2 (\<lambda>x y. (x - y) * (x - y)) r s)) A B)))
     else Inl ValueError)"
| "squared_error _ _ = Inl NotModelled"

text \<open>
  A run of the small network, given the masks that its salt-and-pepper streams draw.
  The user-supplied activations are the identity function and the user-supplied cost
  is the squared error, the Gaussian streams happen to draw zero noise everywhere, and
  the Bernoulli streams happen to return the probabilities they are given.
\<close>

definition example_run :: "(nat \<Rightarrow> nat \<Rightarrow> nat \<Rightarrow> mask) \<Rightarrow> rat env" where
  "example_run masks =
    \<lparr>var_val = example_values,
     fn_val = (\<lambda>f v. case f of UserFn k \<Rightarrow> Inr v | Registry name \<Rightarrow> Inl NotModelled),
     cost_val = (\<lambda>f v w. case f of UserFn k \<Rightarrow> squared_error v w
                            | Registry name \<Rightarrow> Inl NotModelled),
     gaussian_draw = (\<lambda>k s v. Inr v),
     binomial_draw = (\<lambda>k v. Inr v),
     salt_and_pepper_draw = (\<lambda>k l v. salt_and_pepper_mask (masks k) v)\<rparr>"

text \<open>The arguments of the small network with user-supplied (identity) activations.\<close>

definition linear_args :: gsn_args where
  "linear_args = example_args\<lparr>visible_activation := UserFn 0, hidden_activation := UserFn 0\<rparr>"

section \<open>The random streams of an expression\<close>

text \<open>
  The random streams that an expression draws from, by the kind of node that draws.
  An expression without streams has one value in all runs on the same inputs.
\<close>

datatype stream = GaussianStream nat | BinomialStream nat | SaltAndPepperStream nat

primrec streams :: "expr \<Rightarrow> stream set" where
  "streams (Var x) = {}"
| "streams (Dot e1 e2) = streams e1 \<union> streams e2"
| "streams (Transpose e) = streams e"
| "streams (Add e1 e2) = streams e1 \<union> streams e2"
| "streams (ZerosLike e) = streams e"
| "streams (Apply f e) = streams e"
| "streams (Cost f e1 e2) = streams e1 \<union> streams e2"
| "streams (AddGaussian k s e) = insert (GaussianStream k) (streams s \<union> streams e)"
| "streams (Binomial k e) = insert (BinomialStream k) (streams e)"
| "streams (SaltAndPepper k l e) = insert (SaltAndPepperStream k) (streams l \<union> streams e)"
| "streams (Slice a b e) = streams e"
| "streams (Concatenate es) = \<Union> (set (map streams es))"

text \<open>Two runs on the same inputs: they differ in their draws at most.\<close>

definition same_inputs :: "'a env \<Rightarrow> 'a env \<Rightarrow> bool" where
  "same_inputs env1 env2 =
    (var_val env1 = var_val env2 \<and> fn_val env1 = fn_val env2 \<and> cost_val env1 = cost_val env2)"

text \<open>Two runs make the same draw on a stream.\<close>

fun same_draw :: "'a env \<Rightarrow> 'a env \<Rightarrow> stream \<Rightarrow> bool" where
  "same_draw env1 env2 (GaussianStream k) = (gaussian_draw env1 k = gaussian_draw env2 k)"
| "same_draw env1 env2 (BinomialStream k) = (binomial_draw env1 k = binomial_draw env2 k)"
| "same_draw env1 env2 (SaltAndPepperStream k) =
    (salt_and_pepper_draw env1 k = salt_and_pepper_draw env2 k)"

text \<open>The values of the reconstruction chain of a build in a run.\<close>

definition chain_values ::
  "'a::semiring_1 env \<Rightarrow> error + (expr list \<times> expr list \<times> nat) \<Rightarrow> error + (error + 'a tval) list" where
  "chain_values env r =
    (case r of Inl e \<Rightarrow> Inl e | Inr (chain, hs, MRG) \<Rightarrow> Inr (map (eval env) chain))"

text \<open>The values of the layers of a build in a run.\<close>

definition layer_values ::
  "'a::semiring_1 env \<Rightarrow> error + (expr list \<times> expr list \<times> nat) \<Rightarrow> error + (error + 'a tval) list" where
  "layer_values env r =
    (case r of Inl e \<Rightarrow> Inl e | Inr (chain, hs, MRG) \<Rightarrow> Inr (map (eval env) hs))"

text \<open>The small network with the noise flag and input sampling switched off.\<close>

definition quiet_args :: gsn_args where
  "quiet_args = linear_args\<lparr>add_noise := False, input_sampling := False\<rparr>"

text \<open>
  A run that differs from \<open>example_run masks\<close> in its Gaussian and Bernoulli draws
  only: every Gaussian sample is one (so the noise level itself is added), and every
  Bernoulli sample is zero.
\<close>

definition other_run :: "(nat \<Rightarrow> nat \<Rightarrow> nat \<Rightarrow> mask) \<Rightarrow> rat env" where
  "other_run masks =
    (example_run masks)\<lparr>gaussian_draw := (\<lambda>k s v. add_val v s),
                         binomial_draw := (\<lambda>k v. Inr (zeros_like_val v))\<rparr>"

section \<open>Reversed passes, as the specification describes them\<close>

text \<open>
  The specification of \<^verbatim>\<open>build_gsn_given_hiddens\<close>: a number of passes over the
  layers in reversed order. Each pass first updates the even layers, which appends
  exactly one tensor to the chain, the reconstruction of the visible layer from the
  first hidden layer as it is at the start of the pass, and then updates the odd
  layers. \<open>reversed_passes W b a n s s'\<close>: \<open>n\<close> such passes lead from the state \<open>s\<close>
  (layers, chain, random generator) to the state \<open>s'\<close>.
\<close>

inductive reversed_passes ::
  "expr list \<Rightarrow> expr list \<Rightarrow> gsn_args \<Rightarrow> nat
    \<Rightarrow> expr list \<times> expr list \<times> nat \<Rightarrow> expr list \<times> expr list \<times> nat \<Rightarrow> bool"
  for W b a where
    no_pass: "reversed_passes W b a 0 s s"
  | one_more:
    "update_even_layers hs W b (Some chain) a m = Inr (hs1, Some (chain @ [rX]), m1) \<Longrightarrow>
     rX = Apply (visible_activation a) (Add (Dot (hs ! 1) (Transpose (W ! 0))) (b ! 0)) \<Longrightarrow>
     update_odd_layers hs1 W b a m1 = Inr (hs2, m2) \<Longrightarrow>
     reversed_passes W b a n (hs2, chain @ [rX], m2) s' \<Longrightarrow>
     reversed_passes W b a (Suc n) (hs, chain, m) s'"

text \<open>The number that an expression evaluates to, when it evaluates to a scalar.\<close>

definition scalar_value :: "'a::semiring_1 env \<Rightarrow> expr \<Rightarrow> 'a" where
  "scalar_value env e = (case eval env e of Inr (Scalar x) \<Rightarrow> x | _ \<Rightarrow> 0)"

text \<open>
  The values, in a run, of what \<^verbatim>\<open>build_gsn_given_hiddens\<close> returns: of the cost of
  every chain entry, of the total cost and of the last cost.
\<close>

definition cost_values ::
  "'a::semiring_1 env \<Rightarrow> callable \<Rightarrow> expr
    \<Rightarrow> error + (expr list \<times> expr list \<times> expr \<times> expr \<times> nat)
    \<Rightarrow> error + ((error + 'a tval) list \<times> (error + 'a tval) \<times> (error + 'a tval))" where
  "cost_values env cost_function X r =
    (case r of
       Inl e \<Rightarrow> Inl e
     | Inr (chain, hs, cost, show_cost, MRG) \<Rightarrow>
         Inr (map (\<lambda>rX. eval env (Cost cost_function rX X)) chain,
              eval env cost, eval env show_cost))"

text \<open>
  An object with three hidden layers of one unit over two input features, with the
  parameters that the constructor creates, before its graph is built.
\<close>

definition example_gsn :: gsn where
  "example_gsn =
    \<lparr>self_N_input = 2, self_layers = 3, self_walkbacks = 5, self_noiseless_h1 = True,
     self_hidden_add_noise_sigma = Var (Shared ''hidden_add_noise_sigma''),
     self_input_salt_and_pepper = Var (Shared ''input_salt_and_pepper''),
     self_input_sampling = True, self_hidden_size = 1, self_layer_sizes = [2, 1, 1, 1],
     self_hidden_activation = UserFn 0, self_visible_activation = UserFn 0,
     self_cost_function = UserFn 1, self_X = Var X_input, self_MRG = 0,
     self_weights_list = [Var (W_shared 0 1), Var (W_shared 1 2), Var (W_shared 2 3)],
     self_bias_list = [Var (b_shared 0), Var (b_shared 1), Var (b_shared 2), Var (b_shared 3)],
     self_show_cost = None, self_cost = None, self_monitor = None, self_output = None,
     self_hiddens = None, self_f_predict = None, self_f_noise = None, self_f_sample = None,
     self_f_monitors = None\<rparr>"

text \<open>A list of layers for that object, supplied from outside.\<close>

definition example_layers :: "expr list" where
  "example_layers = [Var X_input, Var (H_sampling 1), Var (H_sampling 2), Var (H_sampling 3)]"

section \<open>The constructor and the methods that need the graph\<close>

text \<open>
  The messages that the class logs at the levels warning, error and critical (debug
  and info messages are left out). The warning carries the two numbers that are
  formatted into it.
\<close>

datatype log_entry = LogWarning string int int | LogError string | LogCritical string

text \<open>
  The value given for an activation or a cost function: a callable, the name of one
  in the registry, or anything else (such as \<^verbatim>\<open>None\<close>).
\<close>

datatype fn_arg = Callable callable | Name string | NotAFunction

text \<open>
  The arguments of the constructor that the model reads: the merged configuration, the
  two hooks (a pair of a shape and a tensor) and the dataset, which is given by its
  example shape. The output directory and the image geometry play no part in the
  graph and are left out.
\<close>

record config =
  cfg_input_size :: "nat option"
  cfg_layers :: int
  cfg_walkbacks :: int
  cfg_hidden_size :: nat
  cfg_noiseless_h1 :: bool
  cfg_input_sampling :: bool
  cfg_hidden_activation :: fn_arg
  cfg_visible_activation :: fn_arg
  cfg_cost_function :: fn_arg
  cfg_inputs_hook :: "(nat \<times> expr) option"
  cfg_hiddens_hook :: "(nat \<times> expr) option"
  cfg_dataset :: "nat option"

text \<open>
  The registries \<^verbatim>\<open>get_activation_function\<close> and \<^verbatim>\<open>get_cost_function\<close> live in
  \<^verbatim>\<open>opendeep.utils\<close>, which is not among the sources; the constructor is given them.
\<close>

record registry =
  get_activation_function :: "string \<Rightarrow> error + callable"
  get_cost_function :: "string \<Rightarrow> error + callable"

text \<open>
  The dimensionality of the input: from the inputs hook, else from the dataset, else
  from \<^verbatim>\<open>input_size\<close>, which may be missing.
\<close>

definition input_dimension :: "config \<Rightarrow> nat option" where
  "input_dimension cfg =
    (case cfg_inputs_hook cfg of
       None \<Rightarrow> (case cfg_dataset cfg of None \<Rightarrow> cfg_input_size cfg | Some shape \<Rightarrow> Some shape)
     | Some (shape, x) \<Rightarrow> Some shape)"

text \<open>The check of the walkbacks against the layers: it logs, and does nothing else.\<close>

definition walkback_warning :: "int \<Rightarrow> int \<Rightarrow> log_entry list" where
  "walkback_warning layers walkbacks =
    (if layers mod 2 = 0 then
       (if walkbacks < 2 * layers
        then [LogWarning ''Not enough walkbacks for the layers!'' layers walkbacks] else [])
     else
       (if walkbacks < 2 * layers - 1
        then [LogWarning ''Not enough walkbacks for the layers!'' layers walkbacks] else []))"

text \<open>
  One of the three blocks that resolve the hidden activation, the visible activation
  and the cost function: a callable is taken as it is, a string is looked up, anything
  else is logged as critical and raises \<^verbatim>\<open>NotImplementedError\<close>.
\<close>

definition resolve_function ::
  "(string \<Rightarrow> error + callable) \<Rightarrow> string \<Rightarrow> fn_arg \<Rightarrow> log_entry list \<times> (error + callable)" where
  "resolve_function lookup message arg =
    (case arg of
       Callable f \<Rightarrow> ([], Inr f)
     | Name s \<Rightarrow> ([], lookup s)
     | NotAFunction \<Rightarrow> ([LogCritical message], Inl NotImplementedError))"

text \<open>The arguments that the object passes to the graph helpers, for a noise flag.\<close>

definition make_args :: "gsn \<Rightarrow> bool \<Rightarrow> gsn_args" where
  "make_args self flag =
    \<lparr>add_noise = flag, noiseless_h1 = self_noiseless_h1 self,
     hidden_add_noise_sigma = self_hidden_add_noise_sigma self,
     input_salt_and_pepper = self_input_salt_and_pepper self,
     input_sampling = self_input_sampling self,
     visible_activation = self_visible_activation self,
     hidden_activation = self_hidden_activation self\<rparr>"

text \<open>
  One of the two graphs of \<^verbatim>\<open>build_computation_graph\<close>: \<^verbatim>\<open>build_gsn\<close> without a
  hiddens hook, \<^verbatim>\<open>build_gsn_given_hiddens\<close> on the unpacked hook otherwise. The chain,
  the layers and the state of the generator are kept.
\<close>

definition build_graph ::
  "gsn \<Rightarrow> (nat \<times> expr) option \<Rightarrow> bool \<Rightarrow> nat \<Rightarrow> error + (expr list \<times> expr list \<times> nat)" where
  "build_graph self hiddens_hook flag MRG =
    (case hiddens_hook of
       None \<Rightarrow>
         build_gsn (self_X self) (self_weights_list self) (self_bias_list self)
           (make_args self flag) MRG (self_walkbacks self)
     | Some (shape, hook) \<Rightarrow>
         bind_err (unpack_hiddens self hook) (\<lambda>hl.
         bind_err (build_gsn_given_hiddens (self_X self) hl (self_weights_list self)
                     (self_bias_list self) (make_args self flag) MRG (self_walkbacks self)
                     (self_cost_function self))
           (\<lambda>(chain, hs, cost, show_cost, MRG'). Inr (chain, hs, MRG'))))"

text \<open>
  \<^verbatim>\<open>build_computation_graph(self, hiddens_hook)\<close>: the noisy graph, the graph without
  noise, the costs and outputs, one sampling step, and the compiled functions, which
  are kept as their inputs and outputs. \<^verbatim>\<open>costs[-1]\<close> and \<^verbatim>\<open>p_X_chain_recon[-1]\<close> raise
  on an empty chain.
\<close>

definition build_computation_graph :: "gsn \<Rightarrow> (nat \<times> expr) option \<Rightarrow> error + gsn" where
  "build_computation_graph self hiddens_hook =
    bind_err (build_graph self hiddens_hook True (self_MRG self)) (\<lambda>(p_X_chain, hs, MRG1).
    bind_err (build_graph self hiddens_hook False MRG1) (\<lambda>(p_X_chain_recon, recon_hiddens, MRG2).
    let costs = map (\<lambda>rX. Cost (self_cost_function self) rX (self_X self)) p_X_chain
    in bind_err (py_last costs) (\<lambda>show_cost.
    let cost = numpy_sum (hd costs) (tl costs);
        gsn_costs_recon =
          map (\<lambda>rX. Cost (self_cost_function self) rX (self_X self)) p_X_chain_recon
    in bind_err (py_last gsn_costs_recon) (\<lambda>monitor.
    bind_err (py_last p_X_chain_recon) (\<lambda>output.
    let network_state_input =
          Var X_sampling # map (\<lambda>i. Var (H_sampling (i + 1))) [0..<nat (self_layers self)];
        network_state_output = Var X_sampling # tl network_state_input
    in bind_err (update_layers network_state_output (self_weights_list self)
                   (self_bias_list self) (Some []) (make_args self True) MRG2)
         (\<lambda>(network_state_output', chain', MRG3).
    case chain' of
      None \<Rightarrow> Inl AttributeError
    | Some visible_pX_chain \<Rightarrow>
        bind_err (if self_layers self = 1
                  then bind_err (py_last visible_pX_chain) (\<lambda>v. Inr ([Var X_sampling], [v]))
                  else Inr (network_state_input, network_state_output' @ visible_pX_chain))
          (\<lambda>f_sample.
        Inr (self\<lparr>self_show_cost := Some show_cost, self_cost := Some cost,
                  self_monitor := Some monitor, self_output := Some output,
                  self_hiddens := Some recon_hiddens,
                  self_f_predict :=
                    (if hiddens_hook = None then Some ([self_X self], output)
                     else self_f_predict self),
                  self_f_noise :=
                    Some ([self_X self],
                          SaltAndPepper MRG3 (self_input_salt_and_pepper self) (self_X self)),
                  self_f_sample := Some f_sample,
                  self_f_monitors :=
                    (if hiddens_hook = None then Some ([self_X self], [show_cost, monitor])
                     else self_f_monitors self),
                  self_MRG := Suc MRG3\<rparr>))))))))"

text \<open>
  The object as \<^verbatim>\<open>__init__\<close> has set it up when it calls
  \<^verbatim>\<open>build_computation_graph\<close>: the layer sizes \<^verbatim>\<open>[N_input] + [hidden_size] * layers\<close>,
  a fresh generator, one weight for every pair of adjacent layers and one bias for
  every layer.
\<close>

definition unbuilt_gsn :: "config \<Rightarrow> nat \<Rightarrow> callable \<Rightarrow> callable \<Rightarrow> callable \<Rightarrow> gsn" where
  "unbuilt_gsn cfg N_input hidden visible cost =
    \<lparr>self_N_input = N_input, self_layers = cfg_layers cfg, self_walkbacks = cfg_walkbacks cfg,
     self_noiseless_h1 = cfg_noiseless_h1 cfg,
     self_hidden_add_noise_sigma = Var (Shared ''hidden_add_noise_sigma''),
     self_input_salt_and_pepper = Var (Shared ''input_salt_and_pepper''),
     self_input_sampling = cfg_input_sampling cfg,
     self_hidden_size = cfg_hidden_size cfg,
     self_layer_sizes = N_input # replicate (nat (cfg_layers cfg)) (cfg_hidden_size cfg),
     self_hidden_activation = hidden, self_visible_activation = visible,
     self_cost_function = cost,
     self_X = (case cfg_inputs_hook cfg of None \<Rightarrow> Var X_input | Some (shape, x) \<Rightarrow> x),
     self_MRG = 0,
     self_weights_list = map (\<lambda>i. Var (W_shared i (i + 1))) [0..<nat (cfg_layers cfg)],
     self_bias_list = map (\<lambda>i. Var (b_shared i)) [0..<nat (cfg_layers cfg + 1)],
     self_show_cost = None, self_cost = None, self_monitor = None, self_output = None,
     self_hiddens = None, self_f_predict = None, self_f_noise = None, self_f_sample = None,
     self_f_monitors = None\<rparr>"

text \<open>
  \<^verbatim>\<open>GSN.__init__\<close>: what it logs, and the object or the exception. The input
  dimensionality comes first, then the check of the walkbacks, then the hidden
  activation, the visible activation and the cost function, then the parameters and
  the graph.
\<close>

definition GSN_init :: "registry \<Rightarrow> config \<Rightarrow> log_entry list \<times> (error + gsn)" where
  "GSN_init reg cfg =
    (case input_dimension cfg of
       None \<Rightarrow>
         ([LogCritical ''Please either specify input_size in the arguments or provide an example dataset object for input dimensionality.''],
          Inl AssertionError)
     | Some N_input \<Rightarrow>
         (let log1 = walkback_warning (cfg_layers cfg) (cfg_walkbacks cfg)
          in case resolve_function (get_activation_function reg)
                    ''Missing a hidden activation function!'' (cfg_hidden_activation cfg) of
               (log2, Inl e) \<Rightarrow> (log1 @ log2, Inl e)
             | (log2, Inr hidden) \<Rightarrow>
          (case resolve_function (get_activation_function reg)
                    ''Missing a visible activation function!'' (cfg_visible_activation cfg) of
               (log3, Inl e) \<Rightarrow> (log1 @ log2 @ log3, Inl e)
             | (log3, Inr visible) \<Rightarrow>
          (case resolve_function (get_cost_function reg)
                    ''Missing a cost function!'' (cfg_cost_function cfg) of
               (log4, Inl e) \<Rightarrow> (log1 @ log2 @ log3 @ log4, Inl e)
             | (log4, Inr cost) \<Rightarrow>
                 (log1 @ log2 @ log3 @ log4,
                  build_computation_graph (unbuilt_gsn cfg N_input hidden visible cost)
                    (cfg_hiddens_hook cfg))))))"

text \<open>
  Running a compiled function: its inputs, which are graph inputs, are given their
  values and the output is evaluated.
\<close>

fun bind_inputs :: "expr list \<Rightarrow> 'a tval list \<Rightarrow> (vname \<Rightarrow> 'a tval option)
    \<Rightarrow> error + (vname \<Rightarrow> 'a tval option)" where
  "bind_inputs [] [] vars = Inr vars"
| "bind_inputs (Var x # es) (v # vs) vars = bind_inputs es vs (vars(x \<mapsto> v))"
| "bind_inputs _ _ vars = Inl NotModelled"

definition run_function ::
  "'a::semiring_1 env \<Rightarrow> expr list \<times> expr \<Rightarrow> 'a tval list \<Rightarrow> error + 'a tval" where
  "run_function env f vs =
    bind_err (bind_inputs (fst f) vs (var_val env)) (\<lambda>vars. eval (env\<lparr>var_val := vars\<rparr>) (snd f))"

text \<open>
  \<^verbatim>\<open>predict\<close>, \<^verbatim>\<open>get_hiddens\<close> and \<^verbatim>\<open>get_outputs\<close>: each checks with \<^verbatim>\<open>hasattr\<close> that the
  graph has been built, and otherwise logs an error and raises
  \<^verbatim>\<open>NotImplementedError\<close>.
\<close>

definition predict :: "'a::semiring_1 env \<Rightarrow> gsn \<Rightarrow> 'a tval \<Rightarrow> log_entry list \<times> (error + 'a tval)" where
  "predict env self input =
    (case self_f_predict self of
       None \<Rightarrow> ([LogError ''Missing self.f_predict''], Inl NotImplementedError)
     | Some f \<Rightarrow> ([], run_function env f [input]))"

definition get_hiddens :: "gsn \<Rightarrow> log_entry list \<times> (error + expr)" where
  "get_hiddens self =
    (case self_hiddens self of
       None \<Rightarrow> ([LogError ''Missing self.hiddens''], Inl NotImplementedError)
     | Some hs \<Rightarrow> ([], pack_hiddens hs))"

definition get_outputs :: "gsn \<Rightarrow> log_entry list \<times> (error + expr)" where
  "get_outputs self =
    (case self_output self of
       None \<Rightarrow> ([LogError ''Missing self.output''], Inl NotImplementedError)
     | Some out \<Rightarrow> ([], Inr out))"

text \<open>
  A configuration for an object like \<open>example_gsn\<close>, with two walkbacks where five are
  recommended, and a registry that knows every name.
\<close>

definition example_config :: config where
  "example_config =
    \<lparr>cfg_input_size = Some 2, cfg_layers = 3, cfg_walkbacks = 2, cfg_hidden_size = 1,
     cfg_noiseless_h1 = True, cfg_input_sampling = True,
     cfg_hidden_activation = Callable (UserFn 0), cfg_visible_activation = Callable (UserFn 0),
     cfg_cost_function = Callable (UserFn 1),
     cfg_inputs_hook = None, cfg_hiddens_hook = None, cfg_dataset = None\<rparr>"

definition example_registry :: registry where
  "example_registry =
    \<lparr>get_activation_function = (\<lambda>s. Inr (Registry s)),
     get_cost_function = (\<lambda>s. Inr (Registry s))\<rparr>"

text \<open>
  The recommended number of walkbacks for a number of layers: twice the layers when
  that number is even, one less when it is odd.
\<close>

definition walkback_threshold :: "int \<Rightarrow> int" where
  "walkback_threshold L = (if even L then 2 * L else 2 * L - 1)"

fun is_warning :: "log_entry \<Rightarrow> bool" where
  "is_warning (LogWarning message layers walkbacks) = True"
| "is_warning _ = False"

section \<open>Basic facts about the layer update\<close>

lemma bind_err_Inr: "bind_err m f = Inr y \<longleftrightarrow> (\<exists>x. m = Inr x \<and> f x = Inr y)"
  by (cases m) (simp_all add: bind_err_def)

lemma bind_err_simps [simp]: "bind_err (Inr x) f = f x" "bind_err (Inl e) f = Inl e"
  by (simp_all add: bind_err_def)

lemma py_get_Inr: "py_get xs i = Inr x \<longleftrightarrow> i < length xs \<and> x = xs ! i"
  by (auto simp: py_get_def)

lemma py_get_in [simp]: "i < length xs \<Longrightarrow> py_get xs i = Inr (xs ! i)"
  by (simp add: py_get_def)

lemma layer_input_lt: "layer_input hs W b i = Inr h \<Longrightarrow> i < length hs"
  by (auto simp: layer_input_def bind_err_Inr py_get_Inr split: if_splits)

lemma simple_update_layer_frame:
  assumes "simple_update_layer hs W b c i a m = Inr (hs', c', m')"
  shows "length hs' = length hs" "i < length hs" "\<And>j. j \<noteq> i \<Longrightarrow> hs' ! j = hs ! j"
    "i \<noteq> 0 \<Longrightarrow> c' = c"
    "i = 0 \<Longrightarrow> \<exists>chain. c = Some chain \<and> c' = Some (chain @ [Apply (visible_activation a) (Add (Dot (hs ! 1) (Transpose (W ! 0))) (b ! 0))])"
  using assms
  by (auto simp: simple_update_layer_def bind_err_Inr Let_def layer_input_def py_get_Inr split: if_splits option.splits dest: layer_input_lt)

lemma range2_0: "range2 0 n = filter even [0..<n]"
  by (simp add: range2_def)

lemma range2_odd: "i \<in> set (range2 1 n) \<Longrightarrow> odd i \<and> i < n"
  by (auto simp: range2_def)

lemma range2_odd_Suc: "i \<in> set (range2 (Suc 0) n) \<Longrightarrow> odd i \<and> i < n"
  by (auto simp: range2_def)

lemma range2_even: "i \<in> set (range2 0 n) \<Longrightarrow> even i \<and> i < n"
  by (auto simp: range2_def)

lemma range2_0_Cons: "0 < n \<Longrightarrow> range2 0 n = 0 # range2 2 n"
proof -
  assume n: "0 < n"
  have e: "filter (\<lambda>i. i < 2 \<or> even i) [2..<n] = filter even [2..<n]"
    by (rule filter_cong) auto
  show ?thesis
  proof (cases "n = 1")
    case True
    then show ?thesis by (simp add: range2_def)
  next
    case False
    with n have "[0..<n] = 0 # 1 # [2..<n]"
      by (simp add: upt_conv_Cons numeral_2_eq_2)
    then show ?thesis
      by (simp add: range2_def e)
  qed
qed

lemma range2_2_pos: "i \<in> set (range2 2 n) \<Longrightarrow> even i \<and> 2 \<le> i \<and> i < n"
  by (auto simp: range2_def)

lemma update_loop_frame:
  "update_loop idxs hs W b c a m = Inr (hs', c', m') \<Longrightarrow>
    length hs' = length hs \<and> (\<forall>j. j \<notin> set idxs \<longrightarrow> hs' ! j = hs ! j) \<and> (0 \<notin> set idxs \<longrightarrow> c' = c)"
proof (induction idxs arbitrary: hs c m)
  case Nil
  then show ?case by simp
next
  case (Cons i rest)
  from Cons.prems obtain h1 c1 m1 where
    s: "simple_update_layer hs W b c i a m = Inr (h1, c1, m1)" and
    r: "update_loop rest h1 W b c1 a m1 = Inr (hs', c', m')"
    by (auto split: sum.splits)
  from Cons.IH [OF r] simple_update_layer_frame [OF s] show ?case
    by auto
qed

lemma layer_input_ok:
  assumes "i < length hs" "2 \<le> length hs" "length hs \<le> length W + 1" "length hs \<le> length b"
  shows "\<exists>h. layer_input hs W b i = Inr h"
  using assms by (auto simp: layer_input_def py_get_def)

lemma simple_update_layer_ok:
  assumes "i < length hs" "2 \<le> length hs" "length hs \<le> length W + 1" "length hs \<le> length b"
    and "i = 0 \<longrightarrow> c \<noteq> None"
  shows "\<exists>hs' c' m'. simple_update_layer hs W b c i a m = Inr (hs', c', m')"
proof -
  from layer_input_ok [OF assms(1-4)] obtain h where "layer_input hs W b i = Inr h" ..
  with assms(5) show ?thesis
    by (auto simp: simple_update_layer_def Let_def split: option.splits)
qed

lemma simple_update_layer_chain_None:
  "simple_update_layer hs W b c i a m = Inr (hs', c', m') \<Longrightarrow> (c' = None) = (c = None)"
  by (auto simp: simple_update_layer_def bind_err_Inr Let_def split: if_splits option.splits)

lemma update_loop_ok:
  assumes "\<forall>i\<in>set idxs. i < length hs" "2 \<le> length hs" "length hs \<le> length W + 1"
    "length hs \<le> length b" "c \<noteq> None"
  shows "\<exists>hs' c' m'. update_loop idxs hs W b c a m = Inr (hs', c', m')"
  using assms
proof (induction idxs arbitrary: hs c m)
  case Nil
  then show ?case by simp
next
  case (Cons i rest)
  from Cons.prems have "\<exists>hs' c' m'. simple_update_layer hs W b c i a m = Inr (hs', c', m')"
    by (intro simple_update_layer_ok) auto
  then obtain h1 c1 m1 where s: "simple_update_layer hs W b c i a m = Inr (h1, c1, m1)"
    by blast
  from simple_update_layer_frame(1) [OF s] simple_update_layer_chain_None [OF s] Cons.prems
  have "\<exists>hs' c' m'. update_loop rest h1 W b c1 a m1 = Inr (hs', c', m')"
    by (intro Cons.IH) auto
  with s show ?case by simp
qed

lemma update_loop_odd_ok:
  assumes "\<forall>i\<in>set idxs. i < length hs \<and> i \<noteq> 0" "2 \<le> length hs" "length hs \<le> length W + 1"
    "length hs \<le> length b"
  shows "\<exists>hs' m'. update_loop idxs hs W b c a m = Inr (hs', c, m')"
  using assms
proof (induction idxs arbitrary: hs m)
  case Nil
  then show ?case by simp
next
  case (Cons i rest)
  from Cons.prems have "\<exists>hs' c' m'. simple_update_layer hs W b c i a m = Inr (hs', c', m')"
    by (intro simple_update_layer_ok) auto
  then obtain h1 c1 m1 where s: "simple_update_layer hs W b c i a m = Inr (h1, c1, m1)"
    by blast
  from Cons.prems have "i \<noteq> 0" by simp
  from simple_update_layer_frame(4) [OF s this] have c1: "c1 = c" .
  from simple_update_layer_frame(1) [OF s] Cons.prems
  have "\<exists>hs' m'. update_loop rest h1 W b c a m1 = Inr (hs', c, m')"
    by (intro Cons.IH) auto
  with s c1 show ?case by simp
qed

lemma update_odd_layers_ok:
  assumes "2 \<le> length hs" "length hs \<le> length W + 1" "length hs \<le> length b"
  shows "\<exists>hs' m'. update_odd_layers hs W b a m = Inr (hs', m')"
proof -
  have "\<forall>i\<in>set (range2 1 (length hs)). i < length hs \<and> i \<noteq> 0"
    by (auto simp: range2_def)
  from update_loop_odd_ok [OF this assms, of None a m] show ?thesis
    by (auto simp: update_odd_layers_def)
qed

lemma update_odd_layers_frame:
  assumes "update_odd_layers hs W b a m = Inr (hs', m')"
  shows "length hs' = length hs" "\<And>j. even j \<Longrightarrow> hs' ! j = hs ! j"
proof -
  from assms obtain c' where u: "update_loop (range2 1 (length hs)) hs W b None a m = Inr (hs', c', m')"
    by (auto simp: update_odd_layers_def split: sum.splits)
  from update_loop_frame [OF u] show "length hs' = length hs" by simp
  fix j :: nat assume "even j"
  then have "j \<notin> set (range2 1 (length hs))" by (auto dest: range2_odd_Suc)
  with update_loop_frame [OF u] show "hs' ! j = hs ! j" by simp
qed

lemma update_even_layers_frame:
  assumes "update_even_layers hs W b c a m = Inr (hs', c', m')"
  shows "length hs' = length hs" "\<And>j. odd j \<Longrightarrow> hs' ! j = hs ! j"
proof -
  from assms have u: "update_loop (range2 0 (length hs)) hs W b c a m = Inr (hs', c', m')"
    by (simp add: update_even_layers_def)
  from update_loop_frame [OF u] show "length hs' = length hs" by simp
  fix j :: nat assume "odd j"
  then have "j \<notin> set (range2 0 (length hs))" by (auto dest: range2_even)
  with update_loop_frame [OF u] show "hs' ! j = hs ! j" by simp
qed

lemma update_even_layers_chain:
  assumes "update_even_layers hs W b c a m = Inr (hs', c', m')" "hs \<noteq> []"
  shows "\<exists>chain. c = Some chain \<and>
    c' = Some (chain @ [Apply (visible_activation a) (Add (Dot (hs ! 1) (Transpose (W ! 0))) (b ! 0))])"
proof -
  from assms(2) have r: "range2 0 (length hs) = 0 # range2 2 (length hs)"
    by (simp add: range2_0_Cons)
  from assms(1) obtain h1 c1 m1 where
    s: "simple_update_layer hs W b c 0 a m = Inr (h1, c1, m1)" and
    u: "update_loop (range2 2 (length hs)) h1 W b c1 a m1 = Inr (hs', c', m')"
    by (auto simp: update_even_layers_def r split: sum.splits)
  have "0 \<notin> set (range2 2 (length hs))" by (auto dest: range2_2_pos)
  with update_loop_frame [OF u] have "c' = c1" by simp
  with simple_update_layer_frame(5) [OF s] show ?thesis by simp
qed

lemma update_even_layers_ok:
  assumes "2 \<le> length hs" "length hs \<le> length W + 1" "length hs \<le> length b" "c \<noteq> None"
  shows "\<exists>hs' c' m'. update_even_layers hs W b c a m = Inr (hs', c', m')"
  unfolding update_even_layers_def
  using assms by (intro update_loop_ok) (auto dest: range2_even)

section \<open>The visible layer: what goes on the chain, and the corruption (C9)\<close>

text \<open>
  Claim C9. When \<^verbatim>\<open>simple_update_layer\<close> updates the visible layer (\<open>i = 0\<close>), the tensor
  it appends to the reconstruction chain is the visible activation \<open>p\<close> itself, before
  sampling and before corruption, and \<open>h0\<close> becomes the salt-and-pepper corruption of
  the sample (of \<open>p\<close> itself without input sampling). The flag \<open>add_noise\<close> plays no
  part: the result is the same for \<open>add_noise = False\<close> and \<open>add_noise = True\<close>.
\<close>

theorem visible_update_chain_then_corrupt:
  assumes "py_get W 0 = Inr w" and "py_get hs 1 = Inr h_next" and "py_get b 0 = Inr bias"
  shows "simple_update_layer hs W b (Some chain) 0 a MRG =
      (let p = Apply (visible_activation a) (Add (Dot h_next (Transpose w)) bias);
           sampled = (if input_sampling a then Binomial MRG p else p);
           k = (if input_sampling a then Suc MRG else MRG)
       in Inr (hs[0 := SaltAndPepper k (input_salt_and_pepper a) sampled],
               Some (chain @ [p]), Suc k))
    \<and> simple_update_layer hs W b (Some chain) 0 (a\<lparr>add_noise := False\<rparr>) MRG =
      simple_update_layer hs W b (Some chain) 0 (a\<lparr>add_noise := True\<rparr>) MRG"
  using assms by (simp add: simple_update_layer_def layer_input_def Let_def)

theorem visible_update_chain_then_corrupt_witness:
  "simple_update_layer example_hiddens example_weights example_biases (Some []) 0
      (example_args\<lparr>add_noise := False, input_sampling := False\<rparr>) 7 =
    Inr ([SaltAndPepper 7 (Var (Shared ''input_salt_and_pepper''))
            (Apply (Registry ''sigmoid'')
              (Add (Dot (Var (H_sampling 1)) (Transpose (Var (W_shared 0 1)))) (Var (b_shared 0)))),
          Var (H_sampling 1), Var (H_sampling 2)],
         Some [Apply (Registry ''sigmoid'')
              (Add (Dot (Var (H_sampling 1)) (Transpose (Var (W_shared 0 1)))) (Var (b_shared 0)))],
         8)"
  using visible_update_chain_then_corrupt [of example_weights "Var (W_shared 0 1)" example_hiddens
      "Var (H_sampling 1)" example_biases "Var (b_shared 0)" "[]"
      "example_args\<lparr>add_noise := False, input_sampling := False\<rparr>" 7]
  by (simp add: example_args_def example_hiddens_def example_weights_def example_biases_def
      py_get_def Let_def)

section \<open>What the odd and the even pass change (C10)\<close>

text \<open>
  Claim C10. \<^verbatim>\<open>update_odd_layers\<close> changes only odd-indexed entries of the list of
  layers and appends nothing to a chain (its loop returns whatever chain it is given);
  \<^verbatim>\<open>update_even_layers\<close>, on a non-empty list of layers, changes only even-indexed
  entries and appends exactly one tensor to the chain, the visible reconstruction
  computed from the first hidden layer. Both passes return when the list of layers has
  at least two entries and the weights and biases reach as far as the layers.
\<close>

theorem update_passes_frame:
  "(\<forall>hs' m'. update_odd_layers hs W b a m = Inr (hs', m') \<longrightarrow>
      length hs' = length hs \<and> (\<forall>j<length hs. even j \<longrightarrow> hs' ! j = hs ! j))
   \<and> (\<forall>c hs' c' m'. update_loop (range2 1 (length hs)) hs W b c a m = Inr (hs', c', m') \<longrightarrow> c' = c)
   \<and> (\<forall>chain hs' c' m'. hs \<noteq> [] \<longrightarrow>
        update_even_layers hs W b (Some chain) a m = Inr (hs', c', m') \<longrightarrow>
        length hs' = length hs \<and> (\<forall>j<length hs. odd j \<longrightarrow> hs' ! j = hs ! j)
        \<and> c' = Some (chain @
            [Apply (visible_activation a) (Add (Dot (hs ! 1) (Transpose (W ! 0))) (b ! 0))]))
   \<and> (2 \<le> length hs \<and> length hs \<le> length W + 1 \<and> length hs \<le> length b \<longrightarrow>
        (\<exists>hs' m'. update_odd_layers hs W b a m = Inr (hs', m'))
        \<and> (\<forall>chain. \<exists>hs' c' m'. update_even_layers hs W b (Some chain) a m = Inr (hs', c', m')))"
proof (intro conjI allI impI)
  fix hs' m' assume "update_odd_layers hs W b a m = Inr (hs', m')"
  from update_odd_layers_frame [OF this]
  show "length hs' = length hs" and "\<And>j. even j \<Longrightarrow> hs' ! j = hs ! j" .
next
  fix c hs' c' m'
  assume u: "update_loop (range2 1 (length hs)) hs W b c a m = Inr (hs', c', m')"
  have "0 \<notin> set (range2 1 (length hs))" by (auto simp: range2_def)
  with update_loop_frame [OF u] show "c' = c" by simp
next
  fix chain hs' c' m'
  assume ne: "hs \<noteq> []" and u: "update_even_layers hs W b (Some chain) a m = Inr (hs', c', m')"
  from update_even_layers_frame [OF u]
  show "length hs' = length hs" and "\<And>j. odd j \<Longrightarrow> hs' ! j = hs ! j" .
  from update_even_layers_chain [OF u ne]
  show "c' = Some (chain @
      [Apply (visible_activation a) (Add (Dot (hs ! 1) (Transpose (W ! 0))) (b ! 0))])"
    by simp
next
  assume "2 \<le> length hs \<and> length hs \<le> length W + 1 \<and> length hs \<le> length b"
  then show "\<exists>hs' m'. update_odd_layers hs W b a m = Inr (hs', m')"
    by (intro update_odd_layers_ok) auto
next
  fix chain
  assume "2 \<le> length hs \<and> length hs \<le> length W + 1 \<and> length hs \<le> length b"
  then show "\<exists>hs' c' m'. update_even_layers hs W b (Some chain) a m = Inr (hs', c', m')"
    by (intro update_even_layers_ok) auto
qed

theorem update_passes_frame_witness:
  "2 \<le> length example_hiddens \<and> length example_hiddens \<le> length example_weights + 1
   \<and> length example_hiddens \<le> length example_biases \<and> example_hiddens \<noteq> []
   \<and> (\<exists>hs' m'. update_odd_layers example_hiddens example_weights example_biases example_args 0
          = Inr (hs', m')
        \<and> length hs' = 3 \<and> hs' ! 0 = Var X_input \<and> hs' ! 2 = Var (H_sampling 2))
   \<and> (\<exists>hs' m'. update_even_layers example_hiddens example_weights example_biases (Some [])
          example_args 0
          = Inr (hs', Some [Apply (Registry ''sigmoid'')
              (Add (Dot (Var (H_sampling 1)) (Transpose (Var (W_shared 0 1)))) (Var (b_shared 0)))],
            m')
        \<and> length hs' = 3 \<and> hs' ! 1 = Var (H_sampling 1))"
proof -
  note t = update_passes_frame [of example_hiddens example_weights example_biases example_args 0]
  have len: "2 \<le> length example_hiddens \<and> length example_hiddens \<le> length example_weights + 1
      \<and> length example_hiddens \<le> length example_biases"
    by (simp add: example_hiddens_def example_weights_def example_biases_def)
  have ne: "example_hiddens \<noteq> []"
    by (simp add: example_hiddens_def)
  have l3: "length example_hiddens = 3"
    by (simp add: example_hiddens_def)
  from t len obtain h1 m1 where
    o: "update_odd_layers example_hiddens example_weights example_biases example_args 0
        = Inr (h1, m1)"
    by blast
  from t o have "length h1 = length example_hiddens"
    and "\<forall>j<length example_hiddens. even j \<longrightarrow> h1 ! j = example_hiddens ! j"
    by blast+
  then have o': "length h1 = 3 \<and> h1 ! 0 = Var X_input \<and> h1 ! 2 = Var (H_sampling 2)"
    by (simp add: example_hiddens_def)
  from t len obtain h2 c2 m2 where
    e: "update_even_layers example_hiddens example_weights example_biases (Some [])
        example_args 0 = Inr (h2, c2, m2)"
    by blast
  from t e ne have "length h2 = length example_hiddens"
    and "\<forall>j<length example_hiddens. odd j \<longrightarrow> h2 ! j = example_hiddens ! j"
    and "c2 = Some ([] @ [Apply (visible_activation example_args)
        (Add (Dot (example_hiddens ! 1) (Transpose (example_weights ! 0))) (example_biases ! 0))])"
    by blast+
  then have e': "length h2 = 3 \<and> h2 ! 1 = Var (H_sampling 1)
    \<and> c2 = Some [Apply (Registry ''sigmoid'')
        (Add (Dot (Var (H_sampling 1)) (Transpose (Var (W_shared 0 1)))) (Var (b_shared 0)))]"
    by (simp add: example_hiddens_def example_weights_def example_biases_def example_args_def)
  from len ne o o' e e' show ?thesis
    by blast
qed

section \<open>Shapes of the tensor operations\<close>

lemma is_matrix_Matrix [simp]:
  "is_matrix (Matrix c' rows) n c \<longleftrightarrow> c' = c \<and> length rows = n \<and> (\<forall>r\<in>set rows. length r = c)"
  by (auto simp: is_matrix_def list_all_iff)

lemma is_matrixE:
  assumes "is_matrix v n c"
  obtains rows where "v = Matrix c rows" "length rows = n" "\<forall>r\<in>set rows. length r = c"
  using assms by (cases v) (auto simp: is_matrix_def list_all_iff)

lemma is_vectorE:
  assumes "is_vector v c"
  obtains xs where "v = Vector xs" "length xs = c"
  using assms by (cases v) (auto simp: is_vector_def)

lemma dot_val_shape:
  assumes "is_matrix v1 n k" "is_matrix v2 k c"
  shows "\<exists>v. dot_val v1 v2 = Inr v \<and> is_matrix v n c"
  using assms by (auto elim!: is_matrixE)

lemma transpose_val_shape:
  assumes "is_matrix v n c"
  shows "is_matrix (transpose_val v) c n"
  using assms by (auto elim!: is_matrixE)

lemma add_val_shape:
  assumes "is_matrix v1 n c" "is_matrix v2 n c"
  shows "\<exists>v. add_val v1 v2 = Inr v \<and> is_matrix v n c"
  using assms by (auto elim!: is_matrixE simp: set_zip)

lemma add_val_bias_shape:
  assumes "is_matrix v1 n c" "is_vector v2 c"
  shows "\<exists>v. add_val v1 v2 = Inr v \<and> is_matrix v n c"
  using assms by (auto elim!: is_matrixE is_vectorE)

lemma zeros_like_val_shape:
  assumes "is_matrix v n c"
  shows "is_matrix (zeros_like_val v) n c"
  using assms by (auto elim!: is_matrixE)

lemma has_shapeE:
  assumes "has_shape env e n c"
  obtains v where "eval env e = Inr v" "is_matrix v n c"
  using assms by (auto simp: has_shape_def split: sum.splits)

lemma has_lengthE:
  assumes "has_length env e c"
  obtains v where "eval env e = Inr v" "is_vector v c"
  using assms by (auto simp: has_length_def split: sum.splits)

lemma has_shapeI: "eval env e = Inr v \<Longrightarrow> is_matrix v n c \<Longrightarrow> has_shape env e n c"
  by (simp add: has_shape_def)

lemma has_shape_Dot:
  assumes "has_shape env e1 n k" "has_shape env e2 k c"
  shows "has_shape env (Dot e1 e2) n c"
proof -
  from assms obtain v1 v2 where e: "eval env e1 = Inr v1" "eval env e2 = Inr v2"
    and m: "is_matrix v1 n k" "is_matrix v2 k c"
    by (auto elim!: has_shapeE)
  from dot_val_shape [OF m] e show ?thesis
    by (auto simp: has_shape_def)
qed

lemma has_shape_Transpose:
  assumes "has_shape env e n c"
  shows "has_shape env (Transpose e) c n"
proof -
  from assms obtain v where "eval env e = Inr v" "is_matrix v n c"
    by (auto elim!: has_shapeE)
  then show ?thesis
    by (simp add: has_shape_def transpose_val_shape)
qed

lemma has_shape_Add:
  assumes "has_shape env e1 n c" "has_shape env e2 n c"
  shows "has_shape env (Add e1 e2) n c"
proof -
  from assms obtain v1 v2 where e: "eval env e1 = Inr v1" "eval env e2 = Inr v2"
    and m: "is_matrix v1 n c" "is_matrix v2 n c"
    by (auto elim!: has_shapeE)
  from add_val_shape [OF m] e show ?thesis
    by (auto simp: has_shape_def)
qed

lemma has_shape_Add_bias:
  assumes "has_shape env e1 n c" "has_length env e2 c"
  shows "has_shape env (Add e1 e2) n c"
proof -
  from assms obtain v1 v2 where e: "eval env e1 = Inr v1" "eval env e2 = Inr v2"
    and m: "is_matrix v1 n c" "is_vector v2 c"
    by (auto elim!: has_shapeE has_lengthE)
  from add_val_bias_shape [OF m] e show ?thesis
    by (auto simp: has_shape_def)
qed

lemma has_shape_ZerosLike:
  assumes "has_shape env e n c"
  shows "has_shape env (ZerosLike e) n c"
proof -
  from assms obtain v where "eval env e = Inr v" "is_matrix v n c"
    by (auto elim!: has_shapeE)
  then show ?thesis
    by (simp add: has_shape_def zeros_like_val_shape)
qed

lemma shape_preservingD:
  "shape_preserving f \<Longrightarrow> is_matrix v n c \<Longrightarrow> \<exists>v'. f v = Inr v' \<and> is_matrix v' n c"
  by (auto simp: shape_preserving_def)

lemma has_shape_Apply:
  assumes "shape_preserving (fn_val env f)" "has_shape env e n c"
  shows "has_shape env (Apply f e) n c"
proof -
  from assms(2) obtain v where e: "eval env e = Inr v" and m: "is_matrix v n c"
    by (auto elim!: has_shapeE)
  from shape_preservingD [OF assms(1) m] e show ?thesis
    by (auto simp: has_shape_def)
qed

lemma has_shape_Binomial:
  assumes "shape_preserving (binomial_draw env k)" "has_shape env e n c"
  shows "has_shape env (Binomial k e) n c"
proof -
  from assms(2) obtain v where e: "eval env e = Inr v" and m: "is_matrix v n c"
    by (auto elim!: has_shapeE)
  from shape_preservingD [OF assms(1) m] e show ?thesis
    by (auto simp: has_shape_def)
qed

lemma has_shape_AddGaussian:
  assumes "\<forall>s. shape_preserving (gaussian_draw env k s)" "eval env sigma = Inr sv"
    "has_shape env e n c"
  shows "has_shape env (AddGaussian k sigma e) n c"
proof -
  from assms(3) obtain v where e: "eval env e = Inr v" and m: "is_matrix v n c"
    by (auto elim!: has_shapeE)
  from assms(1) have "shape_preserving (gaussian_draw env k sv)" by simp
  from shape_preservingD [OF this m] e assms(2) show ?thesis
    by (auto simp: has_shape_def)
qed

lemma has_shape_SaltAndPepper:
  assumes "\<forall>l. shape_preserving (salt_and_pepper_draw env k l)" "eval env level = Inr lv"
    "has_shape env e n c"
  shows "has_shape env (SaltAndPepper k level e) n c"
proof -
  from assms(3) obtain v where e: "eval env e = Inr v" and m: "is_matrix v n c"
    by (auto elim!: has_shapeE)
  from assms(1) have "shape_preserving (salt_and_pepper_draw env k lv)" by simp
  from shape_preservingD [OF this m] e assms(2) show ?thesis
    by (auto simp: has_shape_def)
qed

section \<open>The layer update keeps the shapes of the layers\<close>

lemma layers_shaped_length: "layers_shaped env n sizes hs \<Longrightarrow> length hs = length sizes"
  by (simp add: layers_shaped_def list_all2_lengthD)

lemma layers_shaped_nth:
  "layers_shaped env n sizes hs \<Longrightarrow> i < length sizes \<Longrightarrow> has_shape env (hs ! i) n (sizes ! i)"
  by (simp add: layers_shaped_def list_all2_conv_all_nth)

lemma layers_shaped_update:
  "layers_shaped env n sizes hs \<Longrightarrow> has_shape env h n (sizes ! i) \<Longrightarrow>
    layers_shaped env n sizes (hs[i := h])"
  by (cases "i < length hs")
    (auto simp: layers_shaped_def list_all2_conv_all_nth nth_list_update)

lemma params_shaped_weight:
  "params_shaped env sizes W b \<Longrightarrow> i < length W \<Longrightarrow>
    has_shape env (W ! i) (sizes ! i) (sizes ! Suc i)"
  by (simp add: params_shaped_def)

lemma params_shaped_bias:
  "params_shaped env sizes W b \<Longrightarrow> i < length sizes \<Longrightarrow> has_length env (b ! i) (sizes ! i)"
  by (simp add: params_shaped_def list_all2_conv_all_nth)

lemma params_shaped_lengths:
  "params_shaped env sizes W b \<Longrightarrow> length sizes = Suc (length W) \<and> length b = length sizes"
  by (auto simp: params_shaped_def list_all2_lengthD)

lemma layer_input_shaped:
  assumes li: "layer_input hs W b i = Inr h"
    and hs: "layers_shaped env n sizes hs"
    and ps: "params_shaped env sizes W b"
  shows "has_shape env h n (sizes ! i)"
proof -
  note len = layers_shaped_length [OF hs] params_shaped_lengths [OF ps]
  from li have i: "i < length hs" by (rule layer_input_lt)
  with len have ib: "i < length sizes" by simp
  note bias = params_shaped_bias [OF ps ib]
  show ?thesis
  proof (cases "i = 0")
    case True
    with li len have h: "h = Add (Dot (hs ! 1) (Transpose (W ! 0))) (b ! 0)" and l: "1 < length sizes"
      by (auto simp: layer_input_def bind_err_Inr py_get_Inr)
    from l len have "has_shape env (W ! 0) (sizes ! 0) (sizes ! Suc 0)"
      by (intro params_shaped_weight [OF ps]) simp
    moreover from l have "has_shape env (hs ! 1) n (sizes ! 1)"
      by (intro layers_shaped_nth [OF hs])
    ultimately show ?thesis
      using bias True unfolding h
      by (auto intro!: has_shape_Add_bias has_shape_Dot has_shape_Transpose)
  next
    case False
    then obtain j where j: "i = Suc j" by (cases i) auto
    have prev: "has_shape env (Dot (hs ! j) (W ! j)) n (sizes ! i)"
    proof -
      from ib j len have "j < length W" "j < length sizes" by simp_all
      with params_shaped_weight [OF ps, of j] layers_shaped_nth [OF hs, of j] show ?thesis
        unfolding j by (auto intro: has_shape_Dot)
    qed
    show ?thesis
    proof (cases "i + 1 = length hs")
      case True
      with li j have h: "h = Add (Dot (hs ! j) (W ! j)) (b ! i)"
        by (auto simp: layer_input_def bind_err_Inr py_get_Inr)
      from has_shape_Add_bias [OF prev bias] show ?thesis
        unfolding h .
    next
      case top: False
      with li j have h: "h = Add (Add (Dot (hs ! Suc i) (Transpose (W ! i))) (Dot (hs ! j) (W ! j))) (b ! i)"
        and l: "Suc i < length hs" "i < length W"
        by (auto simp: layer_input_def bind_err_Inr py_get_Inr)
      from l len have "has_shape env (W ! i) (sizes ! i) (sizes ! Suc i)"
        by (intro params_shaped_weight [OF ps])
      moreover from l len have "has_shape env (hs ! Suc i) n (sizes ! Suc i)"
        by (intro layers_shaped_nth [OF hs]) simp
      ultimately have "has_shape env (Dot (hs ! Suc i) (Transpose (W ! i))) n (sizes ! i)"
        by (auto intro!: has_shape_Dot has_shape_Transpose)
      from has_shape_Add_bias [OF has_shape_Add [OF this prev] bias] show ?thesis
        unfolding h .
    qed
  qed
qed

lemma activation_noise_shaped:
  assumes d: "draws_shaped env a" and h: "has_shape env h0 n c"
  shows "has_shape env (Apply (visible_activation a) h0) n c"
    and "has_shape env (Apply (hidden_activation a) h0) n c"
    and "has_shape env (AddGaussian k (hidden_add_noise_sigma a) h0) n c"
    and "has_shape env (Binomial k h0) n c"
    and "has_shape env (SaltAndPepper k (input_salt_and_pepper a) h0) n c"
proof -
  from d obtain s l where s: "eval env (hidden_add_noise_sigma a) = Inr s"
    and l: "eval env (input_salt_and_pepper a) = Inr l"
    by (auto simp: draws_shaped_def)
  from d h show "has_shape env (Apply (visible_activation a) h0) n c"
    by (auto simp: draws_shaped_def intro: has_shape_Apply)
  from d h show "has_shape env (Apply (hidden_activation a) h0) n c"
    by (auto simp: draws_shaped_def intro: has_shape_Apply)
  from d h s show "has_shape env (AddGaussian k (hidden_add_noise_sigma a) h0) n c"
    by (auto simp: draws_shaped_def intro: has_shape_AddGaussian)
  from d h show "has_shape env (Binomial k h0) n c"
    by (auto simp: draws_shaped_def intro: has_shape_Binomial)
  from d h l show "has_shape env (SaltAndPepper k (input_salt_and_pepper a) h0) n c"
    by (auto simp: draws_shaped_def intro: has_shape_SaltAndPepper)
qed

lemma simple_update_layer_shaped:
  assumes s: "simple_update_layer hs W b c i a m = Inr (hs', c', m')"
    and hs: "layers_shaped env n sizes hs"
    and ps: "params_shaped env sizes W b"
    and d: "draws_shaped env a"
  shows "layers_shaped env n sizes hs'"
proof -
  from s obtain h0 where li: "layer_input hs W b i = Inr h0"
    by (auto simp: simple_update_layer_def bind_err_Inr)
  note sh = layer_input_shaped [OF li hs ps]
  note an = activation_noise_shaped [OF d]
  from li have i: "i < length hs" by (rule layer_input_lt)
  with s li sh have hi: "has_shape env (hs' ! i) n (sizes ! i)"
    by (auto simp: simple_update_layer_def Let_def split: if_splits option.splits intro!: an)
  note fr = simple_update_layer_frame(1,3) [OF s]
  have "has_shape env (hs' ! j) n (sizes ! j)" if "j < length sizes" for j
    using that hi fr(2) [of j] layers_shaped_nth [OF hs, of j] by (cases "j = i") auto
  with fr(1) layers_shaped_length [OF hs] show ?thesis
    by (simp add: layers_shaped_def list_all2_conv_all_nth)
qed

section \<open>The walkback loop and build_gsn (C1)\<close>

lemma update_loop_shaped:
  assumes "update_loop idxs hs W b c a m = Inr (hs', c', m')"
    and "layers_shaped env n sizes hs" and "params_shaped env sizes W b" and "draws_shaped env a"
  shows "layers_shaped env n sizes hs'"
  using assms(1,2)
proof (induction idxs arbitrary: hs c m)
  case Nil
  then show ?case by simp
next
  case (Cons i rest)
  from Cons.prems(1) obtain h1 c1 m1 where
    s: "simple_update_layer hs W b c i a m = Inr (h1, c1, m1)" and
    r: "update_loop rest h1 W b c1 a m1 = Inr (hs', c', m')"
    by (auto split: sum.splits)
  from simple_update_layer_shaped [OF s Cons.prems(2) assms(3,4)] r show ?case
    by (rule Cons.IH [rotated])
qed

lemma update_layers_shaped:
  assumes u: "update_layers hs W b c a m = Inr (hs', c', m')"
    and "layers_shaped env n sizes hs" and "params_shaped env sizes W b" and "draws_shaped env a"
  shows "layers_shaped env n sizes hs'"
proof -
  from u obtain h1 c1 m1 where
    o: "update_loop (range2 1 (length hs)) hs W b None a m = Inr (h1, c1, m1)" and
    e: "update_loop (range2 0 (length h1)) h1 W b c a m1 = Inr (hs', c', m')"
    by (auto simp: update_layers_def update_odd_layers_def update_even_layers_def bind_err_Inr
        split: sum.splits)
  from update_loop_shaped [OF e update_loop_shaped [OF o assms(2-4)] assms(3,4)]
  show ?thesis .
qed

lemma update_layers_ok:
  assumes "2 \<le> length hs" "length hs \<le> length W + 1" "length hs \<le> length b"
  shows "\<exists>hs' rX m'. update_layers hs W b (Some chain) a m = Inr (hs', Some (chain @ [rX]), m')
    \<and> length hs' = length hs"
proof -
  from update_odd_layers_ok [OF assms] obtain h1 m1 where
    o: "update_odd_layers hs W b a m = Inr (h1, m1)" by blast
  note l1 = update_odd_layers_frame(1) [OF o]
  from assms l1 have "\<exists>hs' c' m'. update_even_layers h1 W b (Some chain) a m1 = Inr (hs', c', m')"
    by (intro update_even_layers_ok) auto
  then obtain h2 c2 m2 where e: "update_even_layers h1 W b (Some chain) a m1 = Inr (h2, c2, m2)"
    by blast
  from assms l1 have "h1 \<noteq> []" by auto
  from update_even_layers_chain [OF e this] update_even_layers_frame(1) [OF e] l1 o e
  show ?thesis
    by (auto simp: update_layers_def)
qed

lemma walkback_loop_ok:
  assumes "2 \<le> length hs" "length hs \<le> length W + 1" "length hs \<le> length b"
  shows "\<exists>hs' chain' m'. walkback_loop k hs W b (Some chain) a m = Inr (hs', Some chain', m')
    \<and> length chain' = length chain + k \<and> length hs' = length hs"
  using assms
proof (induction k arbitrary: hs chain m)
  case 0
  then show ?case by simp
next
  case (Suc k)
  from update_layers_ok [OF Suc.prems, of chain a m] obtain h1 rX m1 where
    u: "update_layers hs W b (Some chain) a m = Inr (h1, Some (chain @ [rX]), m1)"
    and l: "length h1 = length hs"
    by blast
  from Suc.prems l have "\<exists>hs' chain' m'.
      walkback_loop k h1 W b (Some (chain @ [rX])) a m1 = Inr (hs', Some chain', m')
      \<and> length chain' = length (chain @ [rX]) + k \<and> length hs' = length h1"
    by (intro Suc.IH) auto
  with u l show ?case by auto
qed

lemma walkback_loop_shaped:
  assumes "walkback_loop k hs W b c a m = Inr (hs', c', m')"
    and "layers_shaped env n sizes hs" and "params_shaped env sizes W b" and "draws_shaped env a"
  shows "layers_shaped env n sizes hs'"
  using assms(1,2)
proof (induction k arbitrary: hs c m)
  case 0
  then show ?case by simp
next
  case (Suc k)
  from Suc.prems(1) obtain h1 c1 m1 where
    u: "update_layers hs W b c a m = Inr (h1, c1, m1)" and
    r: "walkback_loop k h1 W b c1 a m1 = Inr (hs', c', m')"
    by (auto split: sum.splits)
  from update_layers_shaped [OF u Suc.prems(2) assms(3,4)] r show ?case
    by (rule Suc.IH [rotated])
qed

lemma init_hiddens_snoc:
  "init_hiddens X (W @ [w]) = init_hiddens X W @ [ZerosLike (Dot (last (init_hiddens X W)) w)]"
  by (simp add: init_hiddens_def)

lemma length_init_hiddens [simp]: "length (init_hiddens X W) = Suc (length W)"
  by (induction W rule: rev_induct) (simp_all add: init_hiddens_snoc, simp add: init_hiddens_def)

lemma init_hiddens_0: "init_hiddens X W ! 0 = X"
proof (induction W rule: rev_induct)
  case Nil
  then show ?case by (simp add: init_hiddens_def)
next
  case (snoc w W)
  then show ?case by (simp add: init_hiddens_snoc nth_append)
qed

lemma init_hiddens_Suc:
  "i < length W \<Longrightarrow> init_hiddens X W ! Suc i = ZerosLike (Dot (init_hiddens X W ! i) (W ! i))"
proof (induction W rule: rev_induct)
  case Nil
  then show ?case by simp
next
  case (snoc w W)
  show ?case
  proof (cases "i < length W")
    case True
    with snoc.IH show ?thesis
      by (simp add: init_hiddens_snoc nth_append)
  next
    case False
    with snoc.prems have i: "i = length W" by simp
    have "init_hiddens X W \<noteq> []"
      using length_init_hiddens [of X W] by (metis length_0_conv nat.distinct(1))
    then have "last (init_hiddens X W) = init_hiddens X W ! length W"
      by (simp add: last_conv_nth)
    then show ?thesis
      unfolding i by (simp add: init_hiddens_snoc nth_append)
  qed
qed

lemma init_hiddens_shaped:
  assumes x: "has_shape env X n (sizes ! 0)" and ps: "params_shaped env sizes W b"
  shows "layers_shaped env n sizes (init_hiddens X W)"
proof -
  note len = params_shaped_lengths [OF ps]
  have "has_shape env (init_hiddens X W ! i) n (sizes ! i)" if "i < length sizes" for i
    using that
  proof (induction i)
    case 0
    with x show ?case by (simp add: init_hiddens_0)
  next
    case (Suc i)
    with len have i: "i < length W" by simp
    from Suc have "has_shape env (init_hiddens X W ! i) n (sizes ! i)" by simp
    from has_shape_ZerosLike [OF has_shape_Dot [OF this params_shaped_weight [OF ps i]]]
    show ?case
      by (simp add: init_hiddens_Suc [OF i])
  qed
  with len show ?thesis
    by (simp add: layers_shaped_def list_all2_conv_all_nth)
qed

lemma build_gsn_returns:
  assumes L: "1 \<le> length W" and B: "length b = length W + 1" and K: "1 \<le> K"
  shows "\<exists>chain hs m. build_gsn X W b a MRG K = Inr (chain, hs, m)
    \<and> length chain = nat K \<and> length hs = length W + 1
    \<and> (\<forall>env n sizes. has_shape env X n (sizes ! 0) \<and> params_shaped env sizes W b
          \<and> draws_shaped (env :: 'a::semiring_1 env) a
        \<longrightarrow> layers_shaped env n sizes hs)"
proof -
  define X_init where "X_init = (if add_noise a then SaltAndPepper MRG (input_salt_and_pepper a) X else X)"
  define m0 where "m0 = (if add_noise a then Suc MRG else MRG)"
  define h0 where "h0 = init_hiddens X_init W"
  from L B have len: "2 \<le> length h0" "length h0 \<le> length W + 1" "length h0 \<le> length b"
    by (simp_all add: h0_def)
  from walkback_loop_ok [OF len, of "nat K" "[]" a m0] obtain hs chain m where
    w: "walkback_loop (nat K) h0 W b (Some []) a m0 = Inr (hs, Some chain, m)"
    and c: "length chain = nat K" and h: "length hs = length h0"
    by auto
  have b: "build_gsn X W b a MRG K = Inr (chain, hs, m)"
    using w by (simp add: build_gsn_def Let_def X_init_def m0_def h0_def)
  have "layers_shaped env n sizes hs"
    if x: "has_shape env X n (sizes ! 0)" and ps: "params_shaped env sizes W b"
      and d: "draws_shaped env a"
    for env :: "'a env" and n sizes
  proof -
    from x d have "has_shape env X_init n (sizes ! 0)"
      by (auto simp: X_init_def intro: activation_noise_shaped)
    from walkback_loop_shaped [OF w init_hiddens_shaped [OF this ps, folded h0_def] ps d]
    show ?thesis .
  qed
  with b c h show ?thesis
    by (auto simp: h0_def)
qed

text \<open>
  Claim C1. For every number of layers \<open>L \<ge> 1\<close> (the length of the weights list, with
  \<open>L + 1\<close> biases) and every number of walkbacks \<open>K \<ge> 1\<close>, \<^verbatim>\<open>build_gsn\<close> returns a
  reconstruction chain of exactly \<open>K\<close> tensors and a list of exactly \<open>L + 1\<close> layers; and
  in every run in which the input and the parameters have the shapes of a layer-size
  schedule (and activations and noise keep shapes), layer \<open>i\<close> of the result evaluates
  to a matrix of shape \<open>(n, sizes[i])\<close>. The schedule is arbitrary here; the class uses
  \<open>[input_size, hidden_size, ..., hidden_size]\<close>.
\<close>

theorem build_gsn_chain_and_layers:
  assumes L: "1 \<le> length W" and B: "length b = length W + 1" and K: "1 \<le> K"
  shows "\<exists>chain hs m. build_gsn X W b a MRG K = Inr (chain, hs, m)
    \<and> length chain = nat K \<and> length hs = length W + 1
    \<and> (\<forall>env n sizes. has_shape env X n (sizes ! 0) \<and> params_shaped env sizes W b
          \<and> draws_shaped (env :: 'a::semiring_1 env) a
        \<longrightarrow> layers_shaped env n sizes hs)"
  using assms by (rule build_gsn_returns)

lemma salt_and_pepper_mask_shape: "shape_preserving (salt_and_pepper_mask d)"
  by (auto simp: shape_preserving_def elim!: is_matrixE)

lemma shape_preserving_Inr: "shape_preserving Inr"
  unfolding shape_preserving_def by auto

lemma example_run_draws_shaped: "draws_shaped (example_run masks) linear_args"
  by (simp add: draws_shaped_def example_run_def linear_args_def example_args_def
      salt_and_pepper_mask_shape shape_preserving_Inr)

lemma example_run_params_shaped:
  "params_shaped (example_run masks) [2, 1, 1] example_weights example_biases"
  by (simp add: params_shaped_def example_run_def example_weights_def example_biases_def
      has_shape_def has_length_def is_vector_def All_less_Suc)

lemma example_run_input_shaped: "has_shape (example_run masks) (Var X_input) 1 ([2, 1, 1] ! 0)"
  by (simp add: has_shape_def example_run_def)

theorem build_gsn_chain_and_layers_witness:
  "1 \<le> length example_weights \<and> length example_biases = length example_weights + 1
   \<and> (1::int) \<le> 2
   \<and> has_shape (example_run (\<lambda>k i j. SetZero)) (Var X_input) 1 ([2, 1, 1] ! 0)
   \<and> params_shaped (example_run (\<lambda>k i j. SetZero)) [2, 1, 1] example_weights example_biases
   \<and> draws_shaped (example_run (\<lambda>k i j. SetZero)) linear_args
   \<and> (\<exists>chain hs m. build_gsn (Var X_input) example_weights example_biases linear_args 0 2
          = Inr (chain, hs, m)
        \<and> length chain = 2 \<and> length hs = 3
        \<and> layers_shaped (example_run (\<lambda>k i j. SetZero)) 1 [2, 1, 1] hs)"
proof -
  have l: "1 \<le> length example_weights" "length example_biases = length example_weights + 1"
    by (simp_all add: example_weights_def example_biases_def)
  from build_gsn_chain_and_layers [OF l, of 2 "Var X_input" linear_args 0]
  obtain chain hs m where
    b: "build_gsn (Var X_input) example_weights example_biases linear_args 0 2 = Inr (chain, hs, m)"
    and c: "length chain = nat 2" "length hs = length example_weights + 1"
    and s: "\<And>(env :: rat env) n sizes. has_shape env (Var X_input) n (sizes ! 0) \<and>
        params_shaped env sizes example_weights example_biases \<and> draws_shaped env linear_args
        \<Longrightarrow> layers_shaped env n sizes hs"
    by auto
  note hyps = example_run_input_shaped example_run_params_shaped example_run_draws_shaped
  from s [of "example_run (\<lambda>k i j. SetZero)" 1 "[2, 1, 1]"] hyps
  have "layers_shaped (example_run (\<lambda>k i j. SetZero)) 1 [2, 1, 1] hs"
    by blast
  with l b c hyps show ?thesis
    by (auto simp: example_weights_def)
qed

section \<open>Which random streams the layers and the chain draw from\<close>

lemma sequence_err_cong:
  "(\<And>x. x \<in> set xs \<Longrightarrow> f x = g x) \<Longrightarrow> sequence_err (map f xs) = sequence_err (map g xs)"
  by (induction xs) auto

lemma eval_same_draws:
  assumes "same_inputs env1 env2"
  shows "(\<forall>s\<in>streams e. same_draw env1 env2 s) \<Longrightarrow> eval env1 e = eval env2 e"
proof (induction e)
  case (Concatenate es)
  have "sequence_err (map (eval env1) es) = sequence_err (map (eval env2) es)"
    by (rule sequence_err_cong) (use Concatenate in auto)
  then show ?case by simp
qed (use assms in \<open>auto simp: same_inputs_def\<close>)

lemma simple_update_layer_visible:
  "simple_update_layer hs W b c 0 a m = Inr (hs', c', m') \<longleftrightarrow>
    (\<exists>h0 chain. layer_input hs W b 0 = Inr h0 \<and> c = Some chain
      \<and> hs' = hs[0 := SaltAndPepper (if input_sampling a then Suc m else m)
            (input_salt_and_pepper a)
            (if input_sampling a then Binomial m (Apply (visible_activation a) h0)
             else Apply (visible_activation a) h0)]
      \<and> c' = Some (chain @ [Apply (visible_activation a) h0])
      \<and> m' = (if input_sampling a then Suc (Suc m) else Suc m))"
  by (cases c) (auto simp: simple_update_layer_def bind_err_Inr Let_def)

lemma simple_update_layer_hidden:
  assumes "i \<noteq> 0"
  shows "simple_update_layer hs W b c i a m = Inr (hs', c', m') \<longleftrightarrow>
    (\<exists>h0. layer_input hs W b i = Inr h0 \<and> c' = c
      \<and> (if add_noise a \<and> \<not> (i = 1 \<and> noiseless_h1 a)
          then hs' = hs[i := AddGaussian (Suc m) (hidden_add_noise_sigma a)
                  (Apply (hidden_activation a) (AddGaussian m (hidden_add_noise_sigma a) h0))]
            \<and> m' = Suc (Suc m)
          else hs' = hs[i := Apply (hidden_activation a) h0] \<and> m' = m))"
  using assms by (auto simp: simple_update_layer_def bind_err_Inr Let_def)

lemma nth_streams:
  "\<forall>e\<in>set xs. streams e \<subseteq> S \<Longrightarrow> j < length xs \<Longrightarrow> streams (xs ! j) \<subseteq> S"
  by simp

lemma list_update_streams:
  "\<forall>e\<in>set xs. streams e \<subseteq> S \<Longrightarrow> streams x \<subseteq> S \<Longrightarrow> \<forall>e\<in>set (xs[i := x]). streams e \<subseteq> S"
  using set_update_subset_insert [of xs i x] by auto

lemma layer_input_streams:
  assumes li: "layer_input hs W b i = Inr h"
    and hs: "\<forall>e\<in>set hs. streams e \<subseteq> S" and W: "\<forall>e\<in>set W. streams e \<subseteq> S"
    and b: "\<forall>e\<in>set b. streams e \<subseteq> S"
  shows "streams h \<subseteq> S"
proof -
  note n = nth_streams [OF hs] nth_streams [OF W] nth_streams [OF b]
  consider (visible) "i = 0" | (top) "i \<noteq> 0" "i + 1 = length hs"
    | (middle) "i \<noteq> 0" "i + 1 \<noteq> length hs"
    by blast
  then show ?thesis
  proof cases
    case visible
    with li have "h = Add (Dot (hs ! 1) (Transpose (W ! 0))) (b ! 0)"
      and "1 < length hs" "0 < length W" "0 < length b"
      by (auto simp: layer_input_def bind_err_Inr py_get_Inr)
    then show ?thesis by (simp add: n)
  next
    case top
    with li have "h = Add (Dot (hs ! (i - 1)) (W ! (i - 1))) (b ! i)"
      and "i - 1 < length hs" "i - 1 < length W" "i < length b"
      by (auto simp: layer_input_def bind_err_Inr py_get_Inr)
    then show ?thesis by (simp add: n)
  next
    case middle
    with li have "h = Add (Add (Dot (hs ! (i + 1)) (Transpose (W ! i)))
        (Dot (hs ! (i - 1)) (W ! (i - 1)))) (b ! i)"
      and "i + 1 < length hs" "i - 1 < length hs" "i < length W" "i - 1 < length W"
        "i < length b"
      by (auto simp: layer_input_def bind_err_Inr py_get_Inr)
    then show ?thesis by (simp add: n)
  qed
qed

lemma simple_update_layer_streams:
  assumes s: "simple_update_layer hs W b c i a m = Inr (hs', c', m')"
    and hs: "\<forall>e\<in>set hs. streams e \<subseteq> S"
    and W: "\<forall>e\<in>set W. streams e \<subseteq> S" and b: "\<forall>e\<in>set b. streams e \<subseteq> S"
    and c: "\<forall>chain. c = Some chain \<longrightarrow> (\<forall>e\<in>set chain. streams e \<subseteq> S)"
    and g: "i \<noteq> 0 \<and> add_noise a \<longrightarrow>
        range GaussianStream \<subseteq> S \<and> streams (hidden_add_noise_sigma a) \<subseteq> S"
    and bi: "i = 0 \<and> input_sampling a \<longrightarrow> range BinomialStream \<subseteq> S"
    and sp: "i = 0 \<longrightarrow>
        range SaltAndPepperStream \<subseteq> S \<and> streams (input_salt_and_pepper a) \<subseteq> S"
  shows "\<forall>e\<in>set hs'. streams e \<subseteq> S"
    and "\<forall>chain. c' = Some chain \<longrightarrow> (\<forall>e\<in>set chain. streams e \<subseteq> S)"
proof -
  have "(\<forall>e\<in>set hs'. streams e \<subseteq> S)
    \<and> (\<forall>chain. c' = Some chain \<longrightarrow> (\<forall>e\<in>set chain. streams e \<subseteq> S))"
  proof (cases "i = 0")
    case True
    with s obtain h0 chain x where li: "layer_input hs W b 0 = Inr h0"
      and c0: "c = Some chain" and h: "hs' = hs[0 := x]"
      and x: "x = SaltAndPepper (if input_sampling a then Suc m else m)
            (input_salt_and_pepper a)
            (if input_sampling a then Binomial m (Apply (visible_activation a) h0)
             else Apply (visible_activation a) h0)"
      and c': "c' = Some (chain @ [Apply (visible_activation a) h0])"
      by (auto simp: simple_update_layer_visible)
    note h0 = layer_input_streams [OF li hs W b]
    from h0 bi sp True have "streams x \<subseteq> S"
      unfolding x by auto
    from list_update_streams [OF hs this] h0 c c0 show ?thesis
      unfolding h c' by auto
  next
    case False
    with s obtain h0 x where li: "layer_input hs W b i = Inr h0"
      and c': "c' = c" and h: "hs' = hs[i := x]"
      and x: "x = (if add_noise a \<and> \<not> (i = 1 \<and> noiseless_h1 a)
          then AddGaussian (Suc m) (hidden_add_noise_sigma a)
                  (Apply (hidden_activation a) (AddGaussian m (hidden_add_noise_sigma a) h0))
          else Apply (hidden_activation a) h0)"
      by (auto simp: simple_update_layer_hidden split: if_splits)
    note h0 = layer_input_streams [OF li hs W b]
    from h0 g False have "streams x \<subseteq> S"
      unfolding x by auto
    from list_update_streams [OF hs this] c show ?thesis
      unfolding h c' by auto
  qed
  then show "\<forall>e\<in>set hs'. streams e \<subseteq> S"
    and "\<forall>chain. c' = Some chain \<longrightarrow> (\<forall>e\<in>set chain. streams e \<subseteq> S)"
    by blast+
qed

lemma update_loop_streams:
  assumes "update_loop idxs hs W b c a m = Inr (hs', c', m')"
    and "\<forall>e\<in>set hs. streams e \<subseteq> S"
    and W: "\<forall>e\<in>set W. streams e \<subseteq> S" and b: "\<forall>e\<in>set b. streams e \<subseteq> S"
    and "\<forall>chain. c = Some chain \<longrightarrow> (\<forall>e\<in>set chain. streams e \<subseteq> S)"
    and g: "add_noise a \<longrightarrow>
        range GaussianStream \<subseteq> S \<and> streams (hidden_add_noise_sigma a) \<subseteq> S"
    and bi: "0 \<in> set idxs \<and> input_sampling a \<longrightarrow> range BinomialStream \<subseteq> S"
    and sp: "0 \<in> set idxs \<longrightarrow>
        range SaltAndPepperStream \<subseteq> S \<and> streams (input_salt_and_pepper a) \<subseteq> S"
  shows "(\<forall>e\<in>set hs'. streams e \<subseteq> S)
    \<and> (\<forall>chain. c' = Some chain \<longrightarrow> (\<forall>e\<in>set chain. streams e \<subseteq> S))"
  using assms(1,2,5) bi sp
proof (induction idxs arbitrary: hs c m)
  case Nil
  then show ?case by simp
next
  case (Cons i rest)
  from Cons.prems(1) obtain h1 c1 m1 where
    s: "simple_update_layer hs W b c i a m = Inr (h1, c1, m1)" and
    r: "update_loop rest h1 W b c1 a m1 = Inr (hs', c', m')"
    by (auto split: sum.splits)
  have g': "i \<noteq> 0 \<and> add_noise a \<longrightarrow>
      range GaussianStream \<subseteq> S \<and> streams (hidden_add_noise_sigma a) \<subseteq> S"
    using g by blast
  have bi': "i = 0 \<and> input_sampling a \<longrightarrow> range BinomialStream \<subseteq> S"
    using Cons.prems(4) by simp
  have sp': "i = 0 \<longrightarrow>
      range SaltAndPepperStream \<subseteq> S \<and> streams (input_salt_and_pepper a) \<subseteq> S"
    using Cons.prems(5) by simp
  note st = simple_update_layer_streams [OF s Cons.prems(2) W b Cons.prems(3) g' bi' sp']
  have bi'': "0 \<in> set rest \<and> input_sampling a \<longrightarrow> range BinomialStream \<subseteq> S"
    using Cons.prems(4) by simp
  have sp'': "0 \<in> set rest \<longrightarrow>
      range SaltAndPepperStream \<subseteq> S \<and> streams (input_salt_and_pepper a) \<subseteq> S"
    using Cons.prems(5) by simp
  show ?case
    by (rule Cons.IH [OF r st(1) st(2) bi'' sp''])
qed

lemma update_layers_streams:
  assumes u: "update_layers hs W b c a m = Inr (hs', c', m')"
    and hs: "\<forall>e\<in>set hs. streams e \<subseteq> S"
    and W: "\<forall>e\<in>set W. streams e \<subseteq> S" and b: "\<forall>e\<in>set b. streams e \<subseteq> S"
    and c: "\<forall>chain. c = Some chain \<longrightarrow> (\<forall>e\<in>set chain. streams e \<subseteq> S)"
    and g: "add_noise a \<longrightarrow>
        range GaussianStream \<subseteq> S \<and> streams (hidden_add_noise_sigma a) \<subseteq> S"
    and bi: "input_sampling a \<longrightarrow> range BinomialStream \<subseteq> S"
    and sp: "range SaltAndPepperStream \<subseteq> S \<and> streams (input_salt_and_pepper a) \<subseteq> S"
  shows "(\<forall>e\<in>set hs'. streams e \<subseteq> S)
    \<and> (\<forall>chain. c' = Some chain \<longrightarrow> (\<forall>e\<in>set chain. streams e \<subseteq> S))"
proof -
  from u obtain h1 c1 m1 where
    o: "update_loop (range2 1 (length hs)) hs W b None a m = Inr (h1, c1, m1)" and
    e: "update_loop (range2 0 (length h1)) h1 W b c a m1 = Inr (hs', c', m')"
    by (auto simp: update_layers_def update_odd_layers_def update_even_layers_def bind_err_Inr
        split: sum.splits)
  have n: "\<forall>chain. None = Some chain \<longrightarrow> (\<forall>e\<in>set chain. streams e \<subseteq> S)"
    by simp
  have z: "0 \<notin> set (range2 1 (length hs))"
    by (auto simp: range2_def)
  from z have bo: "0 \<in> set (range2 1 (length hs)) \<and> input_sampling a \<longrightarrow>
      range BinomialStream \<subseteq> S"
    and so: "0 \<in> set (range2 1 (length hs)) \<longrightarrow>
      range SaltAndPepperStream \<subseteq> S \<and> streams (input_salt_and_pepper a) \<subseteq> S"
    by blast+
  from update_loop_streams [OF o hs W b n g bo so] have h1: "\<forall>e\<in>set h1. streams e \<subseteq> S"
    by blast
  from bi have be: "0 \<in> set (range2 0 (length h1)) \<and> input_sampling a \<longrightarrow>
      range BinomialStream \<subseteq> S"
    by blast
  from sp have se: "0 \<in> set (range2 0 (length h1)) \<longrightarrow>
      range SaltAndPepperStream \<subseteq> S \<and> streams (input_salt_and_pepper a) \<subseteq> S"
    by blast
  show ?thesis
    by (rule update_loop_streams [OF e h1 W b c g be se])
qed

lemma walkback_loop_streams:
  assumes "walkback_loop k hs W b c a m = Inr (hs', c', m')"
    and "\<forall>e\<in>set hs. streams e \<subseteq> S"
    and W: "\<forall>e\<in>set W. streams e \<subseteq> S" and b: "\<forall>e\<in>set b. streams e \<subseteq> S"
    and "\<forall>chain. c = Some chain \<longrightarrow> (\<forall>e\<in>set chain. streams e \<subseteq> S)"
    and g: "add_noise a \<longrightarrow>
        range GaussianStream \<subseteq> S \<and> streams (hidden_add_noise_sigma a) \<subseteq> S"
    and bi: "input_sampling a \<longrightarrow> range BinomialStream \<subseteq> S"
    and sp: "range SaltAndPepperStream \<subseteq> S \<and> streams (input_salt_and_pepper a) \<subseteq> S"
  shows "(\<forall>e\<in>set hs'. streams e \<subseteq> S)
    \<and> (\<forall>chain. c' = Some chain \<longrightarrow> (\<forall>e\<in>set chain. streams e \<subseteq> S))"
  using assms(1,2,5)
proof (induction k arbitrary: hs c m)
  case 0
  then show ?case by simp
next
  case (Suc k)
  from Suc.prems(1) obtain h1 c1 m1 where
    u: "update_layers hs W b c a m = Inr (h1, c1, m1)" and
    r: "walkback_loop k h1 W b c1 a m1 = Inr (hs', c', m')"
    by (auto split: sum.splits)
  from update_layers_streams [OF u Suc.prems(2) W b Suc.prems(3) g bi sp]
  have "\<forall>e\<in>set h1. streams e \<subseteq> S"
    and "\<forall>chain. c1 = Some chain \<longrightarrow> (\<forall>e\<in>set chain. streams e \<subseteq> S)"
    by blast+
  then show ?case
    by (rule Suc.IH [OF r])
qed

lemma init_hiddens_streams:
  assumes "streams X \<subseteq> S" "\<forall>e\<in>set W. streams e \<subseteq> S"
  shows "\<forall>e\<in>set (init_hiddens X W). streams e \<subseteq> S"
  using assms(2)
proof (induction W rule: rev_induct)
  case Nil
  with assms(1) show ?case by (simp add: init_hiddens_def)
next
  case (snoc w W)
  have "init_hiddens X W \<noteq> []"
    using length_init_hiddens [of X W] by (metis length_0_conv nat.distinct(1))
  then have "last (init_hiddens X W) \<in> set (init_hiddens X W)" by simp
  with snoc show ?case
    by (auto simp: init_hiddens_snoc)
qed

section \<open>The chain of a build\<close>

lemma update_even_layers_visible:
  assumes "update_even_layers hs W b c a m = Inr (hs', c', m')" "hs \<noteq> []"
  shows "1 < length hs \<and> 0 < length W \<and> 0 < length b"
proof -
  from assms(2) have r: "range2 0 (length hs) = 0 # range2 2 (length hs)"
    by (simp add: range2_0_Cons)
  from assms(1) obtain h1 c1 m1 where
    "simple_update_layer hs W b c 0 a m = Inr (h1, c1, m1)"
    by (auto simp: update_even_layers_def r split: sum.splits)
  then show ?thesis
    by (auto simp: simple_update_layer_visible layer_input_def bind_err_Inr py_get_Inr)
qed

lemma update_layers_chain:
  assumes u: "update_layers hs W b (Some chain) a m = Inr (hs', c', m')" and ne: "hs \<noteq> []"
  shows "\<exists>h1 m1. update_odd_layers hs W b a m = Inr (h1, m1)
    \<and> c' = Some (chain @
        [Apply (visible_activation a) (Add (Dot (h1 ! 1) (Transpose (W ! 0))) (b ! 0))])
    \<and> length hs' = length hs \<and> 1 < length hs \<and> 0 < length W \<and> 0 < length b"
proof -
  from u obtain h1 m1 where o: "update_odd_layers hs W b a m = Inr (h1, m1)"
    and e: "update_even_layers h1 W b (Some chain) a m1 = Inr (hs', c', m')"
    by (auto simp: update_layers_def bind_err_Inr)
  note l1 = update_odd_layers_frame(1) [OF o]
  with ne have n1: "h1 \<noteq> []" by auto
  from update_even_layers_chain [OF e n1] update_even_layers_frame(1) [OF e]
    update_even_layers_visible [OF e n1] l1 o
  show ?thesis by auto
qed

lemma walkback_loop_chain:
  assumes "walkback_loop k hs W b (Some chain) a m = Inr (hs', c', m')" and "hs \<noteq> []"
  shows "\<exists>ext. c' = Some (chain @ ext) \<and> length ext = k"
  using assms
proof (induction k arbitrary: hs chain m)
  case 0
  then show ?case by simp
next
  case (Suc k)
  from Suc.prems(1) obtain h1 c1 m1 where
    u: "update_layers hs W b (Some chain) a m = Inr (h1, c1, m1)" and
    r: "walkback_loop k h1 W b c1 a m1 = Inr (hs', c', m')"
    by (auto split: sum.splits)
  from update_layers_chain [OF u Suc.prems(2)] obtain rX where
    c1: "c1 = Some (chain @ [rX])" and l: "length h1 = length hs"
    by blast
  from l Suc.prems(2) have "h1 \<noteq> []" by auto
  from Suc.IH [OF r [unfolded c1] this] obtain ext where
    "c' = Some ((chain @ [rX]) @ ext)" "length ext = k"
    by blast
  then have "c' = Some (chain @ (rX # ext)) \<and> length (rX # ext) = Suc k"
    by simp
  then show ?case by blast
qed

lemma build_gsn_Inr:
  assumes "build_gsn X W b a MRG K = Inr (chain, hs, m)"
  shows "walkback_loop (nat K)
      (init_hiddens (if add_noise a then SaltAndPepper MRG (input_salt_and_pepper a) X else X) W)
      W b (Some []) a (if add_noise a then Suc MRG else MRG) = Inr (hs, Some chain, m)"
  using assms by (auto simp: build_gsn_def Let_def split: sum.splits option.splits)

lemma init_hiddens_ne [simp]: "init_hiddens X W \<noteq> []"
  using length_init_hiddens [of X W] by (metis length_0_conv nat.distinct(1))

lemma build_gsn_chain_length:
  assumes "build_gsn X W b a MRG K = Inr (chain, hs, m)"
  shows "length chain = nat K"
  using walkback_loop_chain [OF build_gsn_Inr [OF assms]] by auto

lemma build_gsn_first_entry:
  assumes bg: "build_gsn X W b a MRG K = Inr (chain, hs, m)"
    and flag: "\<not> add_noise a"
    and det: "streams X = {}" "\<forall>e\<in>set W. streams e = {}" "\<forall>e\<in>set b. streams e = {}"
    and ne: "chain \<noteq> []"
  shows "streams (chain ! 0) = {}"
proof -
  define h0 where "h0 = init_hiddens X W"
  from build_gsn_Inr [OF bg] flag
  have w: "walkback_loop (nat K) h0 W b (Some []) a MRG = Inr (hs, Some chain, m)"
    by (simp add: h0_def)
  from ne build_gsn_chain_length [OF bg] obtain k where k: "nat K = Suc k"
    by (cases "nat K") auto
  from w [unfolded k] obtain h1 c1 m1 where
    u: "update_layers h0 W b (Some []) a MRG = Inr (h1, c1, m1)" and
    r: "walkback_loop k h1 W b c1 a m1 = Inr (hs, Some chain, m)"
    by (auto split: sum.splits)
  have h0ne: "h0 \<noteq> []" by (simp add: h0_def)
  from update_layers_chain [OF u h0ne] obtain g1 n1 where
    o: "update_odd_layers h0 W b a MRG = Inr (g1, n1)"
    and c1: "c1 = Some [Apply (visible_activation a) (Add (Dot (g1 ! 1) (Transpose (W ! 0))) (b ! 0))]"
    and l: "length h1 = length h0" "1 < length h0" "0 < length W" "0 < length b"
    by auto
  from l(1) h0ne have "h1 \<noteq> []" by auto
  from walkback_loop_chain [OF r [unfolded c1] this]
  have first: "chain ! 0 = Apply (visible_activation a) (Add (Dot (g1 ! 1) (Transpose (W ! 0))) (b ! 0))"
    by auto
  from o obtain c2 where
    lo: "update_loop (range2 1 (length h0)) h0 W b None a MRG = Inr (g1, c2, n1)"
    by (auto simp: update_odd_layers_def split: sum.splits)
  have W': "\<forall>e\<in>set W. streams e \<subseteq> {}" and b': "\<forall>e\<in>set b. streams e \<subseteq> {}"
    using det by simp_all
  have "\<forall>e\<in>set h0. streams e \<subseteq> {}"
    unfolding h0_def by (rule init_hiddens_streams) (use det in simp_all)
  moreover have "\<forall>chain. None = Some chain \<longrightarrow> (\<forall>e\<in>set chain. streams e \<subseteq> {})"
    by simp
  moreover have "add_noise a \<longrightarrow>
      range GaussianStream \<subseteq> {} \<and> streams (hidden_add_noise_sigma a) \<subseteq> {}"
    using flag by simp
  moreover have z: "0 \<notin> set (range2 1 (length h0))"
    by (auto simp: range2_def)
  then have "0 \<in> set (range2 1 (length h0)) \<and> input_sampling a \<longrightarrow> range BinomialStream \<subseteq> {}"
    and "0 \<in> set (range2 1 (length h0)) \<longrightarrow>
      range SaltAndPepperStream \<subseteq> {} \<and> streams (input_salt_and_pepper a) \<subseteq> {}"
    by blast+
  ultimately have "\<forall>e\<in>set g1. streams e \<subseteq> {}"
    using update_loop_streams [OF lo _ W' b'] by blast
  moreover from update_odd_layers_frame(1) [OF o] l have "1 < length g1" by simp
  ultimately have "streams (g1 ! 1) = {}" by simp
  with det l show ?thesis
    unfolding first by simp
qed

lemma build_gsn_chain_streams:
  assumes bg: "build_gsn X W b a MRG K = Inr (chain, hs, m)"
    and flags: "\<not> add_noise a" "\<not> input_sampling a"
    and det: "streams X = {}" "\<forall>e\<in>set W. streams e = {}" "\<forall>e\<in>set b. streams e = {}"
      "streams (input_salt_and_pepper a) = {}"
  shows "\<forall>e\<in>set chain. streams e \<subseteq> range SaltAndPepperStream"
proof -
  let ?S = "range SaltAndPepperStream"
  define h0 where "h0 = init_hiddens X W"
  from build_gsn_Inr [OF bg] flags
  have w: "walkback_loop (nat K) h0 W b (Some []) a MRG = Inr (hs, Some chain, m)"
    by (simp add: h0_def)
  have "\<forall>e\<in>set h0. streams e \<subseteq> ?S"
    unfolding h0_def by (rule init_hiddens_streams) (use det in simp_all)
  moreover have "\<forall>e\<in>set W. streams e \<subseteq> ?S" "\<forall>e\<in>set b. streams e \<subseteq> ?S"
    using det by simp_all
  moreover have "\<forall>chain. Some [] = Some chain \<longrightarrow> (\<forall>e\<in>set chain. streams e \<subseteq> ?S)"
    by simp
  moreover have "add_noise a \<longrightarrow>
      range GaussianStream \<subseteq> ?S \<and> streams (hidden_add_noise_sigma a) \<subseteq> ?S"
    and "input_sampling a \<longrightarrow> range BinomialStream \<subseteq> ?S"
    using flags by simp_all
  moreover have "?S \<subseteq> ?S \<and> streams (input_salt_and_pepper a) \<subseteq> ?S"
    using det by simp
  ultimately show ?thesis
    using walkback_loop_streams [OF w, of ?S] by blast
qed

section \<open>Determinism with the noise flag and input sampling off (C2)\<close>

text \<open>
  Claim C2 says that with \<open>add_noise = False\<close> and \<open>input_sampling = False\<close> two runs of
  \<^verbatim>\<open>build_gsn\<close> on the same input and parameters produce identical chains. That fails
  from the second chain entry on: the visible layer is corrupted with salt-and-pepper
  noise after every pass whatever \<open>add_noise\<close> is (claim C9), and the next pass starts
  from the corrupted layer (\<open>build_gsn_noise_disabled_counterexample\<close> below).

  What holds: the first chain entry draws from no random stream, so it has the same
  value in all runs on the same inputs (and so has the whole chain when there is one
  walkback); no chain entry draws from a Gaussian or a Bernoulli stream, so two runs
  that make the same salt-and-pepper draws produce identical chains. The input and the
  parameters are taken to be deterministic themselves, as the graph input and the
  shared variables of the class are.
\<close>

theorem build_gsn_noise_disabled:
  assumes flags: "\<not> add_noise a" "\<not> input_sampling a"
    and det: "streams X = {}" "\<forall>e\<in>set W. streams e = {}" "\<forall>e\<in>set b. streams e = {}"
      "streams (input_salt_and_pepper a) = {}"
    and bg: "build_gsn X W b a MRG K = Inr (chain, hs, m)"
    and runs: "same_inputs env1 env2"
  shows "(chain \<noteq> [] \<longrightarrow> eval env1 (chain ! 0) = eval env2 (chain ! 0))
    \<and> (K = 1 \<longrightarrow> map (eval env1) chain = map (eval env2) chain)
    \<and> (salt_and_pepper_draw env1 = salt_and_pepper_draw env2 \<longrightarrow>
        map (eval env1) chain = map (eval env2) chain)"
proof (intro conjI impI)
  show first: "eval env1 (chain ! 0) = eval env2 (chain ! 0)" if "chain \<noteq> []"
    using build_gsn_first_entry [OF bg flags(1) det(1-3) that]
    by (intro eval_same_draws [OF runs]) simp
  show "map (eval env1) chain = map (eval env2) chain" if "K = 1"
  proof -
    from build_gsn_chain_length [OF bg] that have "length chain = 1" by simp
    then obtain e where c: "chain = [e]"
      by (cases chain) auto
    with first show ?thesis by simp
  qed
  show "map (eval env1) chain = map (eval env2) chain"
    if sp: "salt_and_pepper_draw env1 = salt_and_pepper_draw env2"
  proof (rule map_cong [OF refl])
    fix e assume "e \<in> set chain"
    with build_gsn_chain_streams [OF bg flags det]
    have "streams e \<subseteq> range SaltAndPepperStream" by blast
    with sp have "\<forall>s\<in>streams e. same_draw env1 env2 s" by auto
    then show "eval env1 e = eval env2 e"
      by (rule eval_same_draws [OF runs])
  qed
qed

lemma same_inputs_example_run: "same_inputs (example_run m1) (example_run m2)"
  by (simp add: same_inputs_def example_run_def)

lemma same_inputs_other_run: "same_inputs (example_run m1) (other_run m2)"
  by (simp add: same_inputs_def example_run_def other_run_def)

theorem build_gsn_noise_disabled_counterexample:
  "\<not> add_noise quiet_args \<and> \<not> input_sampling quiet_args
   \<and> same_inputs (example_run (\<lambda>k i j. Keep)) (example_run (\<lambda>k i j. SetZero))
   \<and> chain_values (example_run (\<lambda>k i j. Keep))
        (build_gsn (Var X_input) example_weights example_biases quiet_args 0 2)
      = Inr [Inr (Matrix 2 [[1, 1]]), Inr (Matrix 2 [[3, 3]])]
   \<and> chain_values (example_run (\<lambda>k i j. SetZero))
        (build_gsn (Var X_input) example_weights example_biases quiet_args 0 2)
      = Inr [Inr (Matrix 2 [[1, 1]]), Inr (Matrix 2 [[1, 1]])]"
proof -
  have "\<not> add_noise quiet_args \<and> \<not> input_sampling quiet_args"
    by (simp add: quiet_args_def)
  moreover have "chain_values (example_run (\<lambda>k i j. Keep))
        (build_gsn (Var X_input) example_weights example_biases quiet_args 0 2)
      = Inr [Inr (Matrix 2 [[1, 1]]), Inr (Matrix 2 [[3, 3]])]"
    by code_simp
  moreover have "chain_values (example_run (\<lambda>k i j. SetZero))
        (build_gsn (Var X_input) example_weights example_biases quiet_args 0 2)
      = Inr [Inr (Matrix 2 [[1, 1]]), Inr (Matrix 2 [[1, 1]])]"
    by code_simp
  ultimately show ?thesis
    using same_inputs_example_run by blast
qed

theorem build_gsn_noise_disabled_witness:
  "\<not> add_noise quiet_args \<and> \<not> input_sampling quiet_args
   \<and> streams (Var X_input) = {} \<and> list_all (\<lambda>e. streams e = {}) example_weights
   \<and> list_all (\<lambda>e. streams e = {}) example_biases
   \<and> streams (input_salt_and_pepper quiet_args) = {}
   \<and> same_inputs (example_run (\<lambda>k i j. SetZero)) (other_run (\<lambda>k i j. SetZero))
   \<and> salt_and_pepper_draw (example_run (\<lambda>k i j. SetZero))
      = salt_and_pepper_draw (other_run (\<lambda>k i j. SetZero))
   \<and> chain_values (example_run (\<lambda>k i j. SetZero))
        (build_gsn (Var X_input) example_weights example_biases quiet_args 0 2)
      = chain_values (other_run (\<lambda>k i j. SetZero))
        (build_gsn (Var X_input) example_weights example_biases quiet_args 0 2)"
proof -
  have flags: "\<not> add_noise quiet_args" "\<not> input_sampling quiet_args"
    by (simp_all add: quiet_args_def)
  have det: "streams (Var X_input) = {}" "\<forall>e\<in>set example_weights. streams e = {}"
    "\<forall>e\<in>set example_biases. streams e = {}" "streams (input_salt_and_pepper quiet_args) = {}"
    by (simp_all add: example_weights_def example_biases_def quiet_args_def linear_args_def
        example_args_def)
  have sp: "salt_and_pepper_draw (example_run (\<lambda>k i j. SetZero))
      = salt_and_pepper_draw (other_run (\<lambda>k i j. SetZero))"
    by (simp add: example_run_def other_run_def)
  have "1 \<le> length example_weights" "length example_biases = length example_weights + 1"
    by (simp_all add: example_weights_def example_biases_def)
  from build_gsn_returns [OF this, of 2 "Var X_input" quiet_args 0] obtain chain hs m where
    bg: "build_gsn (Var X_input) example_weights example_biases quiet_args 0 2 = Inr (chain, hs, m)"
    by auto
  from build_gsn_noise_disabled [OF flags det bg same_inputs_other_run] sp
  have "map (eval (example_run (\<lambda>k i j. SetZero))) chain
      = map (eval (other_run (\<lambda>k i j. SetZero))) chain"
    by blast
  with bg have "chain_values (example_run (\<lambda>k i j. SetZero))
        (build_gsn (Var X_input) example_weights example_biases quiet_args 0 2)
      = chain_values (other_run (\<lambda>k i j. SetZero))
        (build_gsn (Var X_input) example_weights example_biases quiet_args 0 2)"
    by (simp add: chain_values_def)
  with flags det sp same_inputs_other_run show ?thesis
    by (simp add: list_all_iff)
qed

section \<open>The first hidden layer without noise (C6)\<close>

text \<open>
  Claim C6 says that with \<open>noiseless_h1 = True\<close> the first hidden layer that the graph
  build produces is the same whether \<open>add_noise\<close> is \<open>True\<close> or \<open>False\<close>. That fails
  for the value which \<^verbatim>\<open>build_gsn\<close> returns: with \<open>add_noise = True\<close> the input is
  corrupted before the first pass, and \<open>h1\<close> is computed from the corrupted input
  (\<open>first_hidden_layer_noiseless_counterexample\<close> below; with more layers and walkbacks
  the noise of \<open>h2\<close> reaches \<open>h1\<close> as well).

  What \<open>noiseless_h1\<close> does: the update of the first hidden layer itself injects no
  Gaussian noise. From the same neighbouring layers, \<^verbatim>\<open>simple_update_layer\<close> at
  \<open>i = 1\<close> computes the same \<open>h1\<close>, the hidden activation of the affine combination,
  and leaves the chain and the random generator as they are, whether \<open>add_noise\<close> is
  \<open>True\<close> or \<open>False\<close>.
\<close>

theorem first_hidden_layer_noiseless:
  assumes "noiseless_h1 a"
  shows "simple_update_layer hs W b c 1 (a\<lparr>add_noise := True\<rparr>) MRG
      = simple_update_layer hs W b c 1 (a\<lparr>add_noise := False\<rparr>) MRG
    \<and> (\<forall>h0. layer_input hs W b 1 = Inr h0 \<longrightarrow>
          simple_update_layer hs W b c 1 a MRG
          = Inr (hs[1 := Apply (hidden_activation a) h0], c, MRG))"
  using assms by (simp add: simple_update_layer_def Let_def)

theorem first_hidden_layer_noiseless_witness:
  "noiseless_h1 example_args
   \<and> simple_update_layer example_hiddens example_weights example_biases None 1
        (example_args\<lparr>add_noise := True\<rparr>) 0
      = simple_update_layer example_hiddens example_weights example_biases None 1
        (example_args\<lparr>add_noise := False\<rparr>) 0
   \<and> layer_input example_hiddens example_weights example_biases 1
      = Inr (Add (Add (Dot (Var (H_sampling 2)) (Transpose (Var (W_shared 1 2))))
                      (Dot (Var X_input) (Var (W_shared 0 1))))
                 (Var (b_shared 1)))
   \<and> simple_update_layer example_hiddens example_weights example_biases None 1 example_args 0
      = Inr ([Var X_input,
              Apply (Registry ''tanh'')
                (Add (Add (Dot (Var (H_sampling 2)) (Transpose (Var (W_shared 1 2))))
                          (Dot (Var X_input) (Var (W_shared 0 1))))
                     (Var (b_shared 1))),
              Var (H_sampling 2)], None, 0)"
proof -
  have n: "noiseless_h1 example_args"
    by (simp add: example_args_def)
  have li: "layer_input example_hiddens example_weights example_biases 1
      = Inr (Add (Add (Dot (Var (H_sampling 2)) (Transpose (Var (W_shared 1 2))))
                      (Dot (Var X_input) (Var (W_shared 0 1))))
                 (Var (b_shared 1)))"
    by (simp add: layer_input_def example_hiddens_def example_weights_def example_biases_def
        py_get_def)
  note t = first_hidden_layer_noiseless [OF n, of example_hiddens example_weights example_biases
      None 0]
  from t have eq: "simple_update_layer example_hiddens example_weights example_biases None 1
        (example_args\<lparr>add_noise := True\<rparr>) 0
      = simple_update_layer example_hiddens example_weights example_biases None 1
        (example_args\<lparr>add_noise := False\<rparr>) 0"
    by blast
  from t li have "simple_update_layer example_hiddens example_weights example_biases None 1
      example_args 0
    = Inr (example_hiddens[1 := Apply (hidden_activation example_args)
        (Add (Add (Dot (Var (H_sampling 2)) (Transpose (Var (W_shared 1 2))))
                      (Dot (Var X_input) (Var (W_shared 0 1))))
                 (Var (b_shared 1)))], None, 0)"
    by blast
  also have "example_hiddens[1 := Apply (hidden_activation example_args)
        (Add (Add (Dot (Var (H_sampling 2)) (Transpose (Var (W_shared 1 2))))
                      (Dot (Var X_input) (Var (W_shared 0 1))))
                 (Var (b_shared 1)))]
      = [Var X_input,
         Apply (Registry ''tanh'')
           (Add (Add (Dot (Var (H_sampling 2)) (Transpose (Var (W_shared 1 2))))
                     (Dot (Var X_input) (Var (W_shared 0 1))))
                (Var (b_shared 1))),
         Var (H_sampling 2)]"
    by (simp add: example_hiddens_def example_args_def)
  finally show ?thesis
    using n eq li by blast
qed

theorem first_hidden_layer_noiseless_counterexample:
  "noiseless_h1 linear_args \<and> add_noise linear_args
   \<and> layer_values (example_run (\<lambda>k i j. SetZero))
        (build_gsn (Var X_input) example_weights example_biases linear_args 0 1)
      = Inr [Inr (Matrix 2 [[0, 0]]), Inr (Matrix 1 [[0]]), Inr (Matrix 1 [[0]])]
   \<and> layer_values (example_run (\<lambda>k i j. SetZero))
        (build_gsn (Var X_input) example_weights example_biases
          (linear_args\<lparr>add_noise := False\<rparr>) 0 1)
      = Inr [Inr (Matrix 2 [[0, 0]]), Inr (Matrix 1 [[1]]), Inr (Matrix 1 [[1]])]"
proof -
  have "noiseless_h1 linear_args \<and> add_noise linear_args"
    by (simp add: linear_args_def example_args_def)
  moreover have "layer_values (example_run (\<lambda>k i j. SetZero))
        (build_gsn (Var X_input) example_weights example_biases linear_args 0 1)
      = Inr [Inr (Matrix 2 [[0, 0]]), Inr (Matrix 1 [[0]]), Inr (Matrix 1 [[0]])]"
    by code_simp
  moreover have "layer_values (example_run (\<lambda>k i j. SetZero))
        (build_gsn (Var X_input) example_weights example_biases
          (linear_args\<lparr>add_noise := False\<rparr>) 0 1)
      = Inr [Inr (Matrix 2 [[0, 0]]), Inr (Matrix 1 [[1]]), Inr (Matrix 1 [[1]])]"
    by code_simp
  ultimately show ?thesis by blast
qed

section \<open>Reversed passes and build_gsn_given_hiddens (C4)\<close>

lemma update_layers_reverse_Inr:
  assumes u: "update_layers_reverse hs W b (Some chain) a m = Inr (hs', c', m')" and ne: "hs \<noteq> []"
  shows "\<exists>h1 m1 rX. update_even_layers hs W b (Some chain) a m = Inr (h1, Some (chain @ [rX]), m1)
    \<and> rX = Apply (visible_activation a) (Add (Dot (hs ! 1) (Transpose (W ! 0))) (b ! 0))
    \<and> update_odd_layers h1 W b a m1 = Inr (hs', m')
    \<and> c' = Some (chain @ [rX]) \<and> length hs' = length hs"
proof -
  from u obtain h1 c1 m1 where e: "update_even_layers hs W b (Some chain) a m = Inr (h1, c1, m1)"
    and o: "update_odd_layers h1 W b a m1 = Inr (hs', m')" and c: "c' = c1"
    by (auto simp: update_layers_reverse_def bind_err_Inr)
  from update_even_layers_chain [OF e ne] update_even_layers_frame(1) [OF e]
    update_odd_layers_frame(1) [OF o] e o c
  show ?thesis by auto
qed

lemma walkback_loop_reverse_passes:
  assumes "walkback_loop_reverse k hs W b (Some chain) a m = Inr (hs', c', m')" and "hs \<noteq> []"
  shows "\<exists>chain'. c' = Some chain' \<and> reversed_passes W b a k (hs, chain, m) (hs', chain', m')
    \<and> length chain' = length chain + k \<and> length hs' = length hs"
  using assms
proof (induction k arbitrary: hs chain m)
  case 0
  then show ?case by (auto intro: reversed_passes.no_pass)
next
  case (Suc k)
  from Suc.prems(1) obtain h2 c2 m2 where
    u: "update_layers_reverse hs W b (Some chain) a m = Inr (h2, c2, m2)" and
    r: "walkback_loop_reverse k h2 W b c2 a m2 = Inr (hs', c', m')"
    by (auto split: sum.splits)
  from update_layers_reverse_Inr [OF u Suc.prems(2)] obtain h1 m1 rX where
    e: "update_even_layers hs W b (Some chain) a m = Inr (h1, Some (chain @ [rX]), m1)"
    and rX: "rX = Apply (visible_activation a) (Add (Dot (hs ! 1) (Transpose (W ! 0))) (b ! 0))"
    and o: "update_odd_layers h1 W b a m1 = Inr (h2, m2)"
    and c2: "c2 = Some (chain @ [rX])" and l: "length h2 = length hs"
    by blast
  from l Suc.prems(2) have "h2 \<noteq> []" by auto
  from Suc.IH [OF r [unfolded c2] this] obtain chain' where
    c': "c' = Some chain'" and p: "reversed_passes W b a k (h2, chain @ [rX], m2) (hs', chain', m')"
    and n: "length chain' = length (chain @ [rX]) + k" "length hs' = length h2"
    by blast
  from reversed_passes.one_more [OF e rX o p] c' n l show ?case
    by simp
qed

lemma update_loop_Nil: "update_loop (range2 s 0) hs W b c a m = Inr (hs, c, m)"
  by (simp add: range2_def)

lemma walkback_loop_reverse_Nil: "walkback_loop_reverse k [] W b c a m = Inr ([], c, m)"
  by (induction k)
    (simp_all add: update_layers_reverse_def update_even_layers_def update_odd_layers_def
      update_loop_Nil)

lemma update_layers_reverse_ok:
  assumes "2 \<le> length hs" "length hs \<le> length W + 1" "length hs \<le> length b"
  shows "\<exists>hs' c' m'. update_layers_reverse hs W b (Some chain) a m = Inr (hs', c', m')"
proof -
  from update_even_layers_ok [OF assms, of "Some chain" a m] obtain h1 c1 m1 where
    e: "update_even_layers hs W b (Some chain) a m = Inr (h1, c1, m1)" by auto
  from update_even_layers_frame(1) [OF e] assms
  have "\<exists>hs' m'. update_odd_layers h1 W b a m1 = Inr (hs', m')"
    by (intro update_odd_layers_ok) auto
  with e show ?thesis
    by (auto simp: update_layers_reverse_def)
qed

lemma walkback_loop_reverse_ok:
  assumes "2 \<le> length hs" "length hs \<le> length W + 1" "length hs \<le> length b"
  shows "\<exists>hs' c' m'. walkback_loop_reverse k hs W b (Some chain) a m = Inr (hs', c', m')"
  using assms
proof (induction k arbitrary: hs chain m)
  case 0
  then show ?case by simp
next
  case (Suc k)
  from update_layers_reverse_ok [OF Suc.prems, of chain a m] obtain h2 c2 m2 where
    u: "update_layers_reverse hs W b (Some chain) a m = Inr (h2, c2, m2)" by blast
  from Suc.prems have ne: "hs \<noteq> []" by auto
  from update_layers_reverse_Inr [OF u ne] obtain rX where
    c2: "c2 = Some (chain @ [rX])" and l: "length h2 = length hs"
    by blast
  from Suc.prems l have "\<exists>hs' c' m'.
      walkback_loop_reverse k h2 W b (Some (chain @ [rX])) a m2 = Inr (hs', c', m')"
    by (intro Suc.IH) auto
  with u c2 show ?case by simp
qed

lemma eval_numpy_sum:
  assumes "\<forall>c\<in>set (c0 # cs). \<exists>x. eval env c = Inr (Scalar x)"
  shows "eval env (numpy_sum c0 cs)
    = Inr (Scalar (sum_list (map (scalar_value env) (c0 # cs))))"
  using assms
proof (induction cs arbitrary: c0 rule: rev_induct)
  case Nil
  then show ?case by (auto simp: numpy_sum_def scalar_value_def)
next
  case (snoc c cs)
  from snoc.prems have "\<forall>c\<in>set (c0 # cs). \<exists>x. eval env c = Inr (Scalar x)" by simp
  from snoc.IH [OF this] have
    "eval env (numpy_sum c0 cs) = Inr (Scalar (sum_list (map (scalar_value env) (c0 # cs))))" .
  moreover from snoc.prems obtain x where x: "eval env c = Inr (Scalar x)" by auto
  moreover from x have "scalar_value env c = x"
    by (simp add: scalar_value_def)
  ultimately show ?case
    by (simp add: numpy_sum_def add.assoc)
qed

lemma build_gsn_given_hiddens_Inr:
  assumes bg: "build_gsn_given_hiddens X hs W b a MRG K cf = Inr (chain, hs', cost, show_cost, m')"
  shows "walkback_loop_reverse (nat K) hs W b (Some []) a MRG = Inr (hs', Some chain, m')"
    and "chain \<noteq> []"
    and "show_cost = Cost cf (last chain) X"
    and "cost = numpy_sum (Cost cf (hd chain) X) (map (\<lambda>rX. Cost cf rX X) (tl chain))"
  using assms
  by (auto simp: build_gsn_given_hiddens_def Let_def bind_err_Inr py_last_def last_map hd_map
      map_tl split: sum.splits option.splits list.splits)

text \<open>
  Claim C4. Whenever \<^verbatim>\<open>build_gsn_given_hiddens\<close> returns, it has performed exactly
  \<open>walkbacks\<close> passes in reversed order (in each pass the even layers first, which
  appends one visible reconstruction to the chain, then the odd layers), starting from
  the given layers and an empty chain; it returns that chain and the final layers; the
  last cost is the cost function applied to the final chain entry and \<open>X\<close>; and in every
  run in which the costs of the chain entries are numbers, the total cost evaluates to
  their sum. It returns for every \<open>walkbacks \<ge> 1\<close> when the list of layers has at
  least two entries and the weights and biases reach as far as the layers.
\<close>

theorem build_gsn_given_hiddens_passes:
  "(\<forall>chain hs' cost show_cost m'.
      build_gsn_given_hiddens X hs W b a MRG K cf = Inr (chain, hs', cost, show_cost, m') \<longrightarrow>
        1 \<le> K
        \<and> reversed_passes W b a (nat K) (hs, [], MRG) (hs', chain, m')
        \<and> length chain = nat K
        \<and> show_cost = Cost cf (last chain) X
        \<and> (\<forall>env :: 'a::semiring_1 env.
              (\<forall>rX\<in>set chain. \<exists>x. eval env (Cost cf rX X) = Inr (Scalar x)) \<longrightarrow>
              eval env cost
              = Inr (Scalar (sum_list (map (\<lambda>rX. scalar_value env (Cost cf rX X)) chain)))))
   \<and> (1 \<le> K \<and> 2 \<le> length hs \<and> length hs \<le> length W + 1 \<and> length hs \<le> length b \<longrightarrow>
        (\<exists>chain hs' cost show_cost m'.
          build_gsn_given_hiddens X hs W b a MRG K cf = Inr (chain, hs', cost, show_cost, m')))"
proof (intro conjI allI impI)
  fix chain hs' cost show_cost m'
  assume bg: "build_gsn_given_hiddens X hs W b a MRG K cf = Inr (chain, hs', cost, show_cost, m')"
  note r = build_gsn_given_hiddens_Inr [OF bg]
  have ne: "hs \<noteq> []"
  proof
    assume "hs = []"
    with r(1) walkback_loop_reverse_Nil [of "nat K" W b "Some []" a MRG] have "chain = []"
      by simp
    with r(2) show False by simp
  qed
  from walkback_loop_reverse_passes [OF r(1) ne]
  show p: "reversed_passes W b a (nat K) (hs, [], MRG) (hs', chain, m')"
    and l: "length chain = nat K"
    by auto
  from l r(2) show "1 \<le> K" by (cases chain) auto
  from r(3) show "show_cost = Cost cf (last chain) X" .
  fix env :: "'a env"
  assume sc: "\<forall>rX\<in>set chain. \<exists>x. eval env (Cost cf rX X) = Inr (Scalar x)"
  from r(2) obtain e es where c: "chain = e # es" by (cases chain) auto
  from sc have "\<forall>c\<in>set (Cost cf e X # map (\<lambda>rX. Cost cf rX X) es).
      \<exists>x. eval env c = Inr (Scalar x)"
    unfolding c by auto
  from eval_numpy_sum [OF this]
  show "eval env cost
      = Inr (Scalar (sum_list (map (\<lambda>rX. scalar_value env (Cost cf rX X)) chain)))"
    unfolding r(4) c by (simp add: comp_def)
next
  assume a: "1 \<le> K \<and> 2 \<le> length hs \<and> length hs \<le> length W + 1 \<and> length hs \<le> length b"
  then have len: "2 \<le> length hs" "length hs \<le> length W + 1" "length hs \<le> length b"
    by simp_all
  from walkback_loop_reverse_ok [OF len, of "nat K" "[]" a MRG] obtain hs' c' m' where
    w: "walkback_loop_reverse (nat K) hs W b (Some []) a MRG = Inr (hs', c', m')"
    by blast
  from len have ne: "hs \<noteq> []" by auto
  from walkback_loop_reverse_passes [OF w ne] obtain chain where
    c': "c' = Some chain" and l: "length chain = nat K"
    by auto
  from l a have "chain \<noteq> []" by auto
  with w c' show "\<exists>chain hs' cost show_cost m'.
      build_gsn_given_hiddens X hs W b a MRG K cf = Inr (chain, hs', cost, show_cost, m')"
    by (auto simp: build_gsn_given_hiddens_def Let_def py_last_def split: list.splits)
qed

theorem build_gsn_given_hiddens_passes_witness:
  "(1::int) \<le> 2 \<and> 2 \<le> length example_hiddens
   \<and> length example_hiddens \<le> length example_weights + 1
   \<and> length example_hiddens \<le> length example_biases
   \<and> cost_values (example_run (\<lambda>k i j. Keep)) (UserFn 1) (Var X_input)
        (build_gsn_given_hiddens (Var X_input) example_hiddens example_weights example_biases
          linear_args 0 2 (UserFn 1))
      = Inr ([Inr (Scalar 1), Inr (Scalar 13)], Inr (Scalar 14), Inr (Scalar 13))
   \<and> (\<exists>chain hs' cost show_cost m'.
        build_gsn_given_hiddens (Var X_input) example_hiddens example_weights example_biases
          linear_args 0 2 (UserFn 1) = Inr (chain, hs', cost, show_cost, m')
        \<and> reversed_passes example_weights example_biases linear_args 2
            (example_hiddens, [], 0) (hs', chain, m')
        \<and> length chain = 2
        \<and> show_cost = Cost (UserFn 1) (last chain) (Var X_input)
        \<and> eval (example_run (\<lambda>k i j. Keep)) cost
          = Inr (Scalar (sum_list (map (\<lambda>rX. scalar_value (example_run (\<lambda>k i j. Keep))
              (Cost (UserFn 1) rX (Var X_input))) chain))))"
proof -
  let ?env = "example_run (\<lambda>k i j. Keep)"
  let ?build = "build_gsn_given_hiddens (Var X_input) example_hiddens example_weights
      example_biases linear_args 0 2 (UserFn 1)"
  note t = build_gsn_given_hiddens_passes [of "Var X_input" example_hiddens example_weights
      example_biases linear_args 0 2 "UserFn 1"]
  have len: "(1::int) \<le> 2 \<and> 2 \<le> length example_hiddens
      \<and> length example_hiddens \<le> length example_weights + 1
      \<and> length example_hiddens \<le> length example_biases"
    by (simp add: example_hiddens_def example_weights_def example_biases_def)
  have cv: "cost_values ?env (UserFn 1) (Var X_input) ?build
      = Inr ([Inr (Scalar 1), Inr (Scalar 13)], Inr (Scalar 14), Inr (Scalar 13))"
    by code_simp
  from t len obtain chain hs' cost show_cost m' where
    bg: "?build = Inr (chain, hs', cost, show_cost, m')"
    by blast
  from cv bg have m: "map (\<lambda>rX. eval ?env (Cost (UserFn 1) rX (Var X_input))) chain
      = [Inr (Scalar 1), Inr (Scalar 13)]"
    by (simp add: cost_values_def)
  have sc: "\<forall>rX\<in>set chain. \<exists>x. eval ?env (Cost (UserFn 1) rX (Var X_input)) = Inr (Scalar x)"
  proof
    fix rX assume "rX \<in> set chain"
    then have "eval ?env (Cost (UserFn 1) rX (Var X_input))
        \<in> set (map (\<lambda>rX. eval ?env (Cost (UserFn 1) rX (Var X_input))) chain)"
      by simp
    then show "\<exists>x. eval ?env (Cost (UserFn 1) rX (Var X_input)) = Inr (Scalar x)"
      unfolding m by auto
  qed
  from t bg have p: "reversed_passes example_weights example_biases linear_args (nat 2)
        (example_hiddens, [], 0) (hs', chain, m')"
    and l: "length chain = nat 2"
    and s: "show_cost = Cost (UserFn 1) (last chain) (Var X_input)"
    and e: "\<forall>env :: rat env.
        (\<forall>rX\<in>set chain. \<exists>x. eval env (Cost (UserFn 1) rX (Var X_input)) = Inr (Scalar x)) \<longrightarrow>
        eval env cost
        = Inr (Scalar (sum_list (map (\<lambda>rX. scalar_value env (Cost (UserFn 1) rX (Var X_input)))
            chain)))"
    by blast+
  from e sc have "eval ?env cost
      = Inr (Scalar (sum_list (map (\<lambda>rX. scalar_value ?env (Cost (UserFn 1) rX (Var X_input)))
          chain)))"
    by blast
  with len cv bg p l s show ?thesis
    by auto
qed

section \<open>Slicing columns out of a matrix\<close>

lemma map_nth_fun: "map (\<lambda>i. f (xs ! i)) [0..<length xs] = map f xs"
  by (rule nth_equalityI) auto

lemma column_slice_val:
  assumes "\<forall>r\<in>set rows. length r = c"
  shows "bind_err (slice_val a b (transpose_val (Matrix c rows))) (\<lambda>v. Inr (transpose_val v))
    = Inr (Matrix (min (b - a) (c - a)) (map (\<lambda>r. take (b - a) (drop a r)) rows))"
proof -
  let ?cols = "map (\<lambda>j. map (\<lambda>r. r ! j) rows) [0..<c]"
  have "map (\<lambda>col. col ! i) (take (b - a) (drop a ?cols)) = take (b - a) (drop a (rows ! i))"
    if i: "i < length rows" for i
  proof -
    from i assms have l: "length (rows ! i) = c" by simp
    have "map (\<lambda>col. col ! i) (take (b - a) (drop a ?cols))
        = take (b - a) (drop a (map (\<lambda>col. col ! i) ?cols))"
      by (simp add: take_map drop_map)
    also have "map (\<lambda>col. col ! i) ?cols = map (\<lambda>j. rows ! i ! j) [0..<c]"
      using i by simp
    also have "\<dots> = rows ! i"
      using l by (metis map_nth)
    finally show ?thesis .
  qed
  then have "map (\<lambda>i. map (\<lambda>col. col ! i) (take (b - a) (drop a ?cols))) [0..<length rows]
      = map (\<lambda>i. take (b - a) (drop a (rows ! i))) [0..<length rows]"
    by simp
  also have "\<dots> = map (\<lambda>r. take (b - a) (drop a r)) rows"
    by (rule map_nth_fun)
  finally show ?thesis
    by simp
qed

lemma eval_column_slice:
  assumes "eval env t = Inr (Matrix c rows)" "\<forall>r\<in>set rows. length r = c"
  shows "eval env (Transpose (Slice a b (Transpose t)))
    = Inr (Matrix (min (b - a) (c - a)) (map (\<lambda>r. take (b - a) (drop a r)) rows))"
  using column_slice_val [OF assms(2), of a b] assms(1) by simp

section \<open>The list that unpack_hiddens builds\<close>

lemma length_odd_layers [simp]: "length (odd_layers xs) = length xs div 2"
  by (induction xs rule: odd_layers.induct) simp_all

lemma odd_layers_nth: "k < length xs div 2 \<Longrightarrow> odd_layers xs ! k = xs ! (2 * k + 1)"
proof (induction xs arbitrary: k rule: odd_layers.induct)
  case (3 x y rest)
  then show ?case by (cases k) simp_all
qed simp_all

lemma unpack_loop_Inr:
  assumes "idx + length ws < length sizes" and "hl \<noteq> []"
  shows "\<exists>res. unpack_loop idx ws sizes t hl = Inr res
    \<and> length res = length hl + length ws
    \<and> take (length hl) res = hl
    \<and> (\<forall>j<length ws. res ! (length hl + j) =
          (if odd (idx + j) then ZerosLike (Dot (res ! (length hl + j - 1)) (ws ! j))
           else Transpose (Slice (((idx + j) div 2) * sizes ! (idx + j))
                  (((idx + j) div 2 + 1) * sizes ! (idx + j + 1)) (Transpose t))))"
  using assms
proof (induction ws arbitrary: idx hl)
  case Nil
  then show ?case by simp
next
  case (Cons w ws)
  define e where "e = (if odd idx then ZerosLike (Dot (last hl) w)
      else Transpose (Slice ((idx div 2) * sizes ! idx) ((idx div 2 + 1) * sizes ! (idx + 1))
             (Transpose t)))"
  from Cons.prems have step: "unpack_loop idx (w # ws) sizes t hl
      = unpack_loop (Suc idx) ws sizes t (hl @ [e])"
    by (simp add: e_def py_get_def even_iff_mod_2_eq_zero)
  from Cons.prems have "Suc idx + length ws < length sizes" "hl @ [e] \<noteq> []"
    by simp_all
  from Cons.IH [OF this] obtain res where
    r: "unpack_loop (Suc idx) ws sizes t (hl @ [e]) = Inr res"
    and l: "length res = length (hl @ [e]) + length ws"
    and tk: "take (length (hl @ [e])) res = hl @ [e]"
    and nth: "\<forall>j<length ws. res ! (length (hl @ [e]) + j) =
          (if odd (Suc idx + j) then ZerosLike (Dot (res ! (length (hl @ [e]) + j - 1)) (ws ! j))
           else Transpose (Slice (((Suc idx + j) div 2) * sizes ! (Suc idx + j))
                  (((Suc idx + j) div 2 + 1) * sizes ! (Suc idx + j + 1)) (Transpose t)))"
    by blast
  have pre: "res ! i = (hl @ [e]) ! i" if "i < Suc (length hl)" for i
  proof -
    from that have "take (length (hl @ [e])) res ! i = res ! i"
      by simp
    with tk show ?thesis by simp
  qed
  have tk': "take (length hl) res = hl"
  proof -
    have "take (length hl) (take (length (hl @ [e])) res) = take (length hl) (hl @ [e])"
      by (simp only: tk)
    then show ?thesis by (simp add: min_def)
  qed
  have at0: "res ! length hl = e"
    using pre [of "length hl"] by simp
  have lst: "last hl = res ! (length hl - 1)"
  proof -
    from Cons.prems(2) have "length hl - 1 < Suc (length hl)" "length hl - 1 < length hl"
      by (simp_all add: Suc_leI)
    with pre [of "length hl - 1"] Cons.prems(2) show ?thesis
      by (simp add: last_conv_nth nth_append)
  qed
  have "res ! (length hl + j) =
          (if odd (idx + j) then ZerosLike (Dot (res ! (length hl + j - 1)) ((w # ws) ! j))
           else Transpose (Slice (((idx + j) div 2) * sizes ! (idx + j))
                  (((idx + j) div 2 + 1) * sizes ! (idx + j + 1)) (Transpose t)))"
    if j: "j < length (w # ws)" for j
  proof (cases j)
    case 0
    with at0 lst show ?thesis by (simp add: e_def)
  next
    case (Suc j')
    with j have "j' < length ws" by simp
    with nth have "res ! (length (hl @ [e]) + j') =
          (if odd (Suc idx + j') then ZerosLike (Dot (res ! (length (hl @ [e]) + j' - 1)) (ws ! j'))
           else Transpose (Slice (((Suc idx + j') div 2) * sizes ! (Suc idx + j'))
                  (((Suc idx + j') div 2 + 1) * sizes ! (Suc idx + j' + 1)) (Transpose t)))"
      by blast
    then show ?thesis
      unfolding Suc by simp
  qed
  with step r l tk' show ?case
    by auto
qed

section \<open>Joining column blocks\<close>

lemma join_val_Cons: "vs \<noteq> [] \<Longrightarrow> join_val (v # vs) = bind_err (join_val vs) (\<lambda>u. join2 v u)"
  by (cases vs) simp_all

lemma sequence_err_Inr [simp]: "sequence_err (map Inr vs) = Inr vs"
  by (induction vs) simp_all

lemma concatenate_eval:
  assumes "map (eval env) es = map Inr vs" and "concatenate es = Inr p"
    and "\<forall>v\<in>set vs. \<exists>c rows. v = Matrix c rows"
  shows "eval env p = join_val vs"
proof (cases es)
  case Nil
  with assms(2) show ?thesis by (simp add: concatenate_def)
next
  case (Cons e es')
  show ?thesis
  proof (cases es')
    case Nil
    with Cons have es: "es = [e]" by simp
    from arg_cong [OF assms(1), of length] es have "length vs = 1" by simp
    then obtain v where vs: "vs = [v]"
      by (cases vs) auto
    from assms(1) es vs have ev: "eval env e = Inr v" by simp
    from assms(2) es have p: "p = e" by (simp add: concatenate_def)
    from assms(3) vs obtain c rows where "v = Matrix c rows" by auto
    with ev p vs show ?thesis by simp
  next
    case (Cons e' es'')
    with \<open>es = e # es'\<close> assms(2) have "p = Concatenate es"
      by (simp add: concatenate_def)
    with assms(1) show ?thesis by simp
  qed
qed

lemma join_val_column_blocks:
  assumes rows: "\<forall>r\<in>set rows. length r = m * hsz" and k0: "k0 < m"
  shows "join_val (map (\<lambda>k. Matrix hsz (map (\<lambda>r. take hsz (drop (k * hsz) r)) rows)) [k0..<m])
    = Inr (Matrix ((m - k0) * hsz) (map (drop (k0 * hsz)) rows))"
  using k0
proof (induction "m - k0" arbitrary: k0)
  case 0
  then show ?case by simp
next
  case (Suc d)
  let ?f = "\<lambda>k. Matrix hsz (map (\<lambda>r. take hsz (drop (k * hsz) r)) rows)"
  from Suc.prems have upt: "[k0..<m] = k0 # [Suc k0..<m]"
    by (simp add: upt_conv_Cons)
  show ?case
  proof (cases "Suc k0 < m")
    case False
    with Suc.prems have m: "m = Suc k0" by simp
    have "map (\<lambda>r. take hsz (drop (k0 * hsz) r)) rows = map (drop (k0 * hsz)) rows"
      by (rule map_cong [OF refl]) (use rows m in simp)
    then show ?thesis
      by (simp add: m)
  next
    case True
    from Suc.hyps(2) have "d = m - Suc k0" by simp
    from Suc.hyps(1) [OF this True]
    have ih: "join_val (map ?f [Suc k0..<m])
        = Inr (Matrix ((m - Suc k0) * hsz) (map (drop (Suc k0 * hsz)) rows))" .
    from True have ne: "map ?f [Suc k0..<m] \<noteq> []" by simp
    have "map2 (@) (map (\<lambda>r. take hsz (drop (k0 * hsz) r)) rows)
          (map (drop (Suc k0 * hsz)) rows)
        = map (\<lambda>r. take hsz (drop (k0 * hsz) r) @ drop (Suc k0 * hsz) r) rows"
      by (simp add: map2_map_map)
    also have "\<dots> = map (drop (k0 * hsz)) rows"
    proof (rule map_cong [OF refl])
      fix r
      have d: "drop (Suc k0 * hsz) r = drop hsz (drop (k0 * hsz) r)"
        by (simp add: add.commute)
      show "take hsz (drop (k0 * hsz) r) @ drop (Suc k0 * hsz) r = drop (k0 * hsz) r"
        by (simp only: d append_take_drop_id)
    qed
    finally have cat: "map2 (@) (map (\<lambda>r. take hsz (drop (k0 * hsz) r)) rows)
          (map (drop (Suc k0 * hsz)) rows) = map (drop (k0 * hsz)) rows" .
    from True have w: "hsz + (m - Suc k0) * hsz = (m - k0) * hsz"
      by (metis Suc_diff_Suc Suc.prems mult_Suc)
    have "join_val (map ?f [k0..<m])
        = bind_err (join_val (map ?f [Suc k0..<m])) (\<lambda>u. join2 (?f k0) u)"
      unfolding upt list.map by (rule join_val_Cons [OF ne])
    also have "\<dots> = join2 (?f k0)
        (Matrix ((m - Suc k0) * hsz) (map (drop (Suc k0 * hsz)) rows))"
      by (simp only: ih bind_err_simps)
    also have "\<dots> = Inr (Matrix (hsz + (m - Suc k0) * hsz)
        (map2 (@) (map (\<lambda>r. take hsz (drop (k0 * hsz) r)) rows)
          (map (drop (Suc k0 * hsz)) rows)))"
      by (simp only: join2.simps length_map refl if_True)
    also have "\<dots> = Inr (Matrix ((m - k0) * hsz) (map (drop (k0 * hsz)) rows))"
      by (simp only: cat w)
    finally show ?thesis .
  qed
qed

section \<open>pack_hiddens after unpack_hiddens (C3)\<close>

lemma odd_layers_schedule:
  "odd_layers (x # replicate L h) = replicate ((L + 1) div 2) h"
proof (rule nth_equalityI)
  show "length (odd_layers (x # replicate L h)) = length (replicate ((L + 1) div 2) h)"
    by simp
  fix k assume "k < length (odd_layers (x # replicate L h))"
  then have k: "k < (L + 1) div 2" by simp
  then have "2 * k < L" by linarith
  with k show "odd_layers (x # replicate L h) ! k = replicate ((L + 1) div 2) h ! k"
    by (simp add: odd_layers_nth)
qed

lemma concatenate_ne: "es \<noteq> [] \<Longrightarrow> \<exists>p. concatenate es = Inr p"
  by (auto simp: concatenate_def split: list.splits)

lemma unpack_hiddens_odd_layers:
  assumes sizes: "self_layer_sizes self = n_in # replicate (length (self_weights_list self)) hsz"
  shows "\<exists>hl. unpack_hiddens self t = Inr hl
    \<and> length hl = length (self_weights_list self) + 1
    \<and> hl ! 0 = ZerosLike (self_X self)
    \<and> (\<forall>i<length (self_weights_list self). odd i \<longrightarrow>
          hl ! (i + 1) = ZerosLike (Dot (hl ! i) (self_weights_list self ! i)))
    \<and> odd_layers hl
      = map (\<lambda>k. Transpose (Slice (k * hsz) ((k + 1) * hsz) (Transpose t)))
          [0..<(length (self_weights_list self) + 1) div 2]"
proof -
  let ?W = "self_weights_list self" and ?S = "self_layer_sizes self"
  let ?L = "length ?W"
  let ?E = "\<lambda>k. Transpose (Slice (k * hsz) ((k + 1) * hsz) (Transpose t))"
  have "0 + ?L < length ?S" "[ZerosLike (self_X self)] \<noteq> []"
    by (simp_all add: sizes)
  from unpack_loop_Inr [OF this, of t] obtain hl where
    u: "unpack_hiddens self t = Inr hl"
    and l: "length hl = 1 + ?L"
    and tk: "take 1 hl = [ZerosLike (self_X self)]"
    and nth: "\<forall>j<?L. hl ! (1 + j) =
          (if odd j then ZerosLike (Dot (hl ! (1 + j - 1)) (?W ! j))
           else Transpose (Slice ((j div 2) * ?S ! j) ((j div 2 + 1) * ?S ! (j + 1))
                  (Transpose t)))"
    by (auto simp: unpack_hiddens_def)
  from tk l have h0: "hl ! 0 = ZerosLike (self_X self)"
    by (cases hl) simp_all
  have ev: "\<forall>i<?L. odd i \<longrightarrow> hl ! (i + 1) = ZerosLike (Dot (hl ! i) (?W ! i))"
    using nth by simp
  have "odd_layers hl = map ?E [0..<(?L + 1) div 2]"
  proof (rule nth_equalityI)
    show "length (odd_layers hl) = length (map ?E [0..<(?L + 1) div 2])"
      using l by simp
    fix k assume "k < length (odd_layers hl)"
    with l have k: "k < (?L + 1) div 2" by simp
    then have j: "2 * k < ?L" by linarith
    from k l have "odd_layers hl ! k = hl ! (1 + 2 * k)"
      by (simp add: odd_layers_nth)
    also from nth j have "\<dots> = Transpose (Slice ((2 * k div 2) * ?S ! (2 * k))
        ((2 * k div 2 + 1) * ?S ! (2 * k + 1)) (Transpose t))"
      by simp
    also have "(2 * k div 2) * ?S ! (2 * k) = k * hsz"
      using j by (cases k) (simp_all add: sizes)
    also have "(2 * k div 2 + 1) * ?S ! (2 * k + 1) = (k + 1) * hsz"
      using j by (simp add: sizes)
    finally show "odd_layers hl ! k = map ?E [0..<(?L + 1) div 2] ! k"
      using k by simp
  qed
  with u l h0 ev show ?thesis by auto
qed

text \<open>
  Claim C3. For a model with the layer-size schedule that the constructor makes,
  \<open>[input_size, hidden_size, ..., hidden_size]\<close> with at least one hidden layer, and a
  tensor \<open>t\<close> that evaluates to a matrix whose width is the sum of the widths of the
  odd-indexed layers: \<^verbatim>\<open>unpack_hiddens\<close> returns a list of layers, \<^verbatim>\<open>pack_hiddens\<close> of
  that list returns a tensor, and that tensor evaluates to the value of \<open>t\<close>.
\<close>

theorem pack_unpack_roundtrip:
  assumes sizes: "self_layer_sizes self = n_in # replicate (length (self_weights_list self)) hsz"
    and L: "1 \<le> length (self_weights_list self)"
    and t: "eval env t = Inr v"
    and v: "is_matrix v n (sum_list (odd_layers (self_layer_sizes self)))"
  shows "\<exists>hl p. unpack_hiddens self t = Inr hl \<and> pack_hiddens hl = Inr p \<and> eval env p = Inr v"
proof -
  let ?L = "length (self_weights_list self)"
  define m where "m = (?L + 1) div 2"
  let ?E = "\<lambda>k. Transpose (Slice (k * hsz) ((k + 1) * hsz) (Transpose t))"
  let ?V = "\<lambda>rows k. Matrix hsz (map (\<lambda>r. take hsz (drop (k * hsz) r)) rows)"
  from L have m: "0 < m" by (simp add: m_def)
  have w: "sum_list (odd_layers (self_layer_sizes self)) = m * hsz"
    by (simp add: sizes odd_layers_schedule sum_list_replicate m_def)
  from v [unfolded w] obtain rows where vm: "v = Matrix (m * hsz) rows"
    and rows: "\<forall>r\<in>set rows. length r = m * hsz"
    by (auto elim: is_matrixE)
  from unpack_hiddens_odd_layers [OF sizes, of t] obtain hl where
    u: "unpack_hiddens self t = Inr hl" and o: "odd_layers hl = map ?E [0..<m]"
    by (auto simp: m_def)
  from m o have "odd_layers hl \<noteq> []" by simp
  from concatenate_ne [OF this] obtain p where p: "pack_hiddens hl = Inr p"
    by (auto simp: pack_hiddens_def)
  have "eval env (?E k) = Inr (?V rows k)" if "k < m" for k
  proof -
    from that obtain d where d: "m = Suc (k + d)"
      using less_imp_Suc_add by blast
    have a: "(k + 1) * hsz - k * hsz = hsz"
      by (simp only: add_mult_distrib mult_1 add_diff_cancel_left')
    have "m * hsz - k * hsz = hsz + d * hsz"
      unfolding d by (simp only: mult_Suc add_mult_distrib add.assoc add_diff_cancel_left'
          add.left_commute [of hsz])
    then have b: "hsz \<le> m * hsz - k * hsz"
      by (simp only: le_add1)
    have "min ((k + 1) * hsz - k * hsz) (m * hsz - k * hsz) = hsz"
      by (simp only: a min_absorb1 [OF b])
    with eval_column_slice [OF t [unfolded vm] rows, of "k * hsz" "(k + 1) * hsz"] a
    show ?thesis by (simp only:)
  qed
  then have "map (eval env) (odd_layers hl) = map Inr (map (?V rows) [0..<m])"
    unfolding o by simp
  from concatenate_eval [OF this p [unfolded pack_hiddens_def]]
  have "eval env p = join_val (map (?V rows) [0..<m])"
    by auto
  also from join_val_column_blocks [OF rows m] have "\<dots> = Inr v"
    by (simp add: vm)
  finally show ?thesis
    using u p by blast
qed

theorem pack_unpack_roundtrip_witness:
  "self_layer_sizes example_gsn = 2 # replicate (length (self_weights_list example_gsn)) 1
   \<and> 1 \<le> length (self_weights_list example_gsn)
   \<and> eval (example_run (\<lambda>k i j. Keep)) (Var (Hook 0)) = Inr (Matrix 2 [[5, 7]])
   \<and> is_matrix (Matrix 2 [[5, 7 :: rat]]) 1 (sum_list (odd_layers (self_layer_sizes example_gsn)))
   \<and> (\<exists>hl p. unpack_hiddens example_gsn (Var (Hook 0)) = Inr hl \<and> pack_hiddens hl = Inr p
        \<and> eval (example_run (\<lambda>k i j. Keep)) p = Inr (Matrix 2 [[5, 7]]))"
proof -
  have s: "self_layer_sizes example_gsn = 2 # replicate (length (self_weights_list example_gsn)) 1"
    by (simp add: example_gsn_def numeral_3_eq_3)
  have l: "1 \<le> length (self_weights_list example_gsn)"
    by (simp add: example_gsn_def)
  have e: "eval (example_run (\<lambda>k i j. Keep)) (Var (Hook 0)) = Inr (Matrix 2 [[5, 7]])"
    by (simp add: example_run_def)
  have m: "is_matrix (Matrix 2 [[5, 7 :: rat]]) 1
      (sum_list (odd_layers (self_layer_sizes example_gsn)))"
    by (simp add: example_gsn_def)
  from pack_unpack_roundtrip [OF s l e m] s l e m show ?thesis
    by blast
qed

section \<open>unpack_hiddens after pack_hiddens (C5)\<close>

lemma zeros_like_val_matrix:
  "is_matrix v n c \<Longrightarrow> zeros_like_val v = Matrix c (replicate n (replicate c 0))"
  by (auto elim!: is_matrixE)

lemma join_val_blocks:
  assumes "vs \<noteq> []" and "\<forall>v\<in>set vs. is_matrix v n hsz"
  shows "\<exists>rows. join_val vs = Inr (Matrix (length vs * hsz) rows)
    \<and> length rows = n \<and> (\<forall>r\<in>set rows. length r = length vs * hsz)
    \<and> (\<forall>k<length vs. Matrix hsz (map (\<lambda>r. take hsz (drop (k * hsz) r)) rows) = vs ! k)"
  using assms
proof (induction vs)
  case Nil
  then show ?case by simp
next
  case (Cons v vs)
  from Cons.prems obtain A where v: "v = Matrix hsz A" and A: "length A = n"
    "\<forall>r\<in>set A. length r = hsz"
    by (auto elim: is_matrixE)
  show ?case
  proof (cases "vs = []")
    case True
    have "map (\<lambda>r. take hsz (drop (0 * hsz) r)) A = A"
      using A(2) by (simp add: map_idI)
    with True v A show ?thesis by simp
  next
    case False
    with Cons obtain R where j: "join_val vs = Inr (Matrix (length vs * hsz) R)"
      and R: "length R = n" "\<forall>r\<in>set R. length r = length vs * hsz"
      and blocks: "\<forall>k<length vs. Matrix hsz (map (\<lambda>r. take hsz (drop (k * hsz) r)) R) = vs ! k"
      by auto
    let ?rows = "map2 (@) A R"
    from False j A R have jv: "join_val (v # vs) = Inr (Matrix (length (v # vs) * hsz) ?rows)"
      by (simp add: join_val_Cons v)
    have lr: "length ?rows = n"
      using A R by simp
    have row: "?rows ! i = A ! i @ R ! i" if "i < n" for i
      using that A R by simp
    have la: "length (A ! i) = hsz" and lR: "length (R ! i) = length vs * hsz" if "i < n" for i
      using that A R by simp_all
    have len: "\<forall>r\<in>set ?rows. length r = length (v # vs) * hsz"
    proof
      fix r assume "r \<in> set ?rows"
      then obtain i where "i < n" "r = ?rows ! i"
        using lr by (metis in_set_conv_nth)
      with row la lR show "length r = length (v # vs) * hsz" by simp
    qed
    have "Matrix hsz (map (\<lambda>r. take hsz (drop (k * hsz) r)) ?rows) = (v # vs) ! k"
      if k: "k < length (v # vs)" for k
    proof (cases k)
      case 0
      have "map (\<lambda>r. take hsz (drop (0 * hsz) r)) ?rows = A"
      proof (rule nth_equalityI)
        show "length (map (\<lambda>r. take hsz (drop (0 * hsz) r)) ?rows) = length A"
          using lr A by simp
        fix i assume "i < length (map (\<lambda>r. take hsz (drop (0 * hsz) r)) ?rows)"
        with lr have i: "i < n" by simp
        with row [OF i] la [OF i] lr
        show "map (\<lambda>r. take hsz (drop (0 * hsz) r)) ?rows ! i = A ! i"
          by simp
      qed
      with 0 v show ?thesis by simp
    next
      case (Suc k')
      with k have k': "k' < length vs" by simp
      have "map (\<lambda>r. take hsz (drop (Suc k' * hsz) r)) ?rows
          = map (\<lambda>r. take hsz (drop (k' * hsz) r)) R"
      proof (rule nth_equalityI)
        show "length (map (\<lambda>r. take hsz (drop (Suc k' * hsz) r)) ?rows)
            = length (map (\<lambda>r. take hsz (drop (k' * hsz) r)) R)"
          using lr R by simp
        fix i assume "i < length (map (\<lambda>r. take hsz (drop (Suc k' * hsz) r)) ?rows)"
        with lr have i: "i < n" by simp
        have "drop (Suc k' * hsz) (A ! i @ R ! i) = drop (k' * hsz) (R ! i)"
          using la [OF i] by simp
        with row [OF i] i lr R
        show "map (\<lambda>r. take hsz (drop (Suc k' * hsz) r)) ?rows ! i
            = map (\<lambda>r. take hsz (drop (k' * hsz) r)) R ! i"
          by simp
      qed
      with blocks k' Suc show ?thesis by simp
    qed
    with jv lr len show ?thesis by blast
  qed
qed

lemma eval_column_block:
  assumes t: "eval env t = Inr (Matrix (m * hsz) rows)" and rows: "\<forall>r\<in>set rows. length r = m * hsz"
    and k: "k < m"
  shows "eval env (Transpose (Slice (k * hsz) ((k + 1) * hsz) (Transpose t)))
    = Inr (Matrix hsz (map (\<lambda>r. take hsz (drop (k * hsz) r)) rows))"
proof -
  from k obtain d where d: "m = Suc (k + d)"
    using less_imp_Suc_add by blast
  have a: "(k + 1) * hsz - k * hsz = hsz"
    by (simp only: add_mult_distrib mult_1 add_diff_cancel_left')
  have "m * hsz - k * hsz = hsz + d * hsz"
    unfolding d by (simp only: mult_Suc add_mult_distrib add.assoc add_diff_cancel_left'
        add.left_commute [of hsz])
  then have b: "hsz \<le> m * hsz - k * hsz"
    by (simp only: le_add1)
  have "min ((k + 1) * hsz - k * hsz) (m * hsz - k * hsz) = hsz"
    by (simp only: a min_absorb1 [OF b])
  with eval_column_slice [OF t rows, of "k * hsz" "(k + 1) * hsz"] a
  show ?thesis by (simp only:)
qed

lemma eval_ZerosLike_shape:
  assumes "has_shape env e n c"
  shows "eval env (ZerosLike e) = Inr (Matrix c (replicate n (replicate c 0)))"
proof -
  from assms obtain v where "eval env e = Inr v" "is_matrix v n c"
    by (auto elim: has_shapeE)
  then show ?thesis
    by (simp add: zeros_like_val_matrix)
qed

lemma has_shape_eval_cong: "eval env e = eval env e' \<Longrightarrow> has_shape env e n c = has_shape env e' n c"
  by (simp add: has_shape_def)

text \<open>
  Claim C5. For a model with the constructor's layer-size schedule and a list \<open>h\<close> of
  layers whose values have the shapes of the schedule (for a batch of \<open>n\<close> rows):
  \<^verbatim>\<open>pack_hiddens\<close> returns a tensor, \<^verbatim>\<open>unpack_hiddens\<close> of it returns a list as long as
  \<open>h\<close>, whose odd-indexed entries evaluate to exactly what those of \<open>h\<close> evaluate to, and
  whose even-indexed entries are zero matrices: the visible layer has the shape of the
  model's input \<open>X\<close>, and the even layer \<open>i > 0\<close> the shape \<open>(n, sizes[i])\<close> that the weight
  chain implies.
\<close>

theorem unpack_pack_layers:
  assumes sizes: "self_layer_sizes self = n_in # replicate (length (self_weights_list self)) hsz"
    and L: "1 \<le> length (self_weights_list self)"
    and hs: "layers_shaped env n (self_layer_sizes self) h"
    and ws: "\<forall>i<length (self_weights_list self).
        has_shape env (self_weights_list self ! i) (self_layer_sizes self ! i)
          (self_layer_sizes self ! (i + 1))"
    and x: "has_shape env (self_X self) nX n_in"
  shows "\<exists>p hl. pack_hiddens h = Inr p \<and> unpack_hiddens self p = Inr hl
    \<and> length hl = length h
    \<and> (\<forall>i<length h. odd i \<longrightarrow> eval env (hl ! i) = eval env (h ! i))
    \<and> eval env (hl ! 0) = Inr (Matrix n_in (replicate nX (replicate n_in 0)))
    \<and> (\<forall>i<length h. even i \<and> 0 < i \<longrightarrow>
          eval env (hl ! i)
          = Inr (Matrix (self_layer_sizes self ! i)
                  (replicate n (replicate (self_layer_sizes self ! i) 0))))"
proof -
  let ?W = "self_weights_list self" and ?S = "self_layer_sizes self"
  let ?L = "length ?W"
  define m where "m = (?L + 1) div 2"
  from L have m: "0 < m" by (simp add: m_def)
  from layers_shaped_length [OF hs] have lh: "length h = ?L + 1"
    by (simp add: sizes)
  have size_hid: "?S ! i = hsz" if "0 < i" "i \<le> ?L" for i
    using that by (cases i) (simp_all add: sizes)
  have shape_h: "has_shape env (h ! i) n hsz" if "0 < i" "i \<le> ?L" for i
    using layers_shaped_nth [OF hs, of i] that size_hid [OF that] by (simp add: sizes)
  define V where "V k = projr (eval env (h ! (2 * k + 1)))" for k
  have V: "eval env (h ! (2 * k + 1)) = Inr (V k) \<and> is_matrix (V k) n hsz" if "k < m" for k
  proof -
    from that have "2 * k + 1 \<le> ?L" unfolding m_def by linarith
    with shape_h [of "2 * k + 1"] show ?thesis
      by (auto elim: has_shapeE simp: V_def)
  qed
  have oh: "odd_layers h = map (\<lambda>k. h ! (2 * k + 1)) [0..<m]"
    by (rule nth_equalityI) (simp_all add: lh m_def odd_layers_nth)
  have ev: "map (eval env) (odd_layers h) = map Inr (map V [0..<m])"
    unfolding oh using V by simp
  from m oh have "odd_layers h \<noteq> []" by simp
  from concatenate_ne [OF this] obtain p where p: "pack_hiddens h = Inr p"
    by (auto simp: pack_hiddens_def)
  have mats: "\<forall>v\<in>set (map V [0..<m]). is_matrix v n hsz"
    using V by auto
  have "\<forall>v\<in>set (map V [0..<m]). \<exists>c rows. v = Matrix c rows"
  proof
    fix v assume "v \<in> set (map V [0..<m])"
    with mats have "is_matrix v n hsz" by blast
    then show "\<exists>c rows. v = Matrix c rows"
      by (rule is_matrixE) blast
  qed
  from concatenate_eval [OF ev p [unfolded pack_hiddens_def] this]
  have ep: "eval env p = join_val (map V [0..<m])" .
  from m have "map V [0..<m] \<noteq> []" by simp
  from join_val_blocks [OF this mats] ep obtain rows where
    j: "eval env p = Inr (Matrix (m * hsz) rows)"
    and rows: "\<forall>r\<in>set rows. length r = m * hsz"
    and blocks: "\<forall>k<m. Matrix hsz (map (\<lambda>r. take hsz (drop (k * hsz) r)) rows) = V k"
    by auto
  let ?E = "\<lambda>k. Transpose (Slice (k * hsz) ((k + 1) * hsz) (Transpose p))"
  from unpack_hiddens_odd_layers [OF sizes, of p] obtain hl where
    u: "unpack_hiddens self p = Inr hl"
    and lhl: "length hl = ?L + 1"
    and h0: "hl ! 0 = ZerosLike (self_X self)"
    and evn: "\<forall>i<?L. odd i \<longrightarrow> hl ! (i + 1) = ZerosLike (Dot (hl ! i) (?W ! i))"
    and ol: "odd_layers hl = map ?E [0..<m]"
    by (auto simp: m_def)
  have odd_eq: "eval env (hl ! i) = eval env (h ! i)" if i: "i < length h" "odd i" for i
  proof -
    from i(2) obtain k where k: "i = 2 * k + 1"
      by (auto elim: oddE)
    with i(1) lh have km: "k < m" unfolding m_def by linarith
    with lhl have "odd_layers hl ! k = hl ! (2 * k + 1)"
      by (simp add: odd_layers_nth m_def)
    with ol km have "hl ! i = ?E k"
      by (simp add: k)
    with eval_column_block [OF j rows km] blocks km V [OF km] show ?thesis
      by (simp add: k)
  qed
  have even_eq: "eval env (hl ! i)
      = Inr (Matrix (?S ! i) (replicate n (replicate (?S ! i) 0)))"
    if i: "i < length h" "even i" "0 < i" for i
  proof -
    from i obtain i' where i': "i = i' + 1" "odd i'" "i' < ?L" "0 < i'"
      using lh by (cases i) (auto elim: oddE)
    from evn i' have hl: "hl ! i = ZerosLike (Dot (hl ! i') (?W ! i'))"
      by simp
    from i' lh have "i' < length h" by simp
    from has_shape_eval_cong [OF odd_eq [OF this i'(2)]] shape_h [of i'] i'
    have "has_shape env (hl ! i') n hsz" by simp
    moreover from ws i' have "has_shape env (?W ! i') (?S ! i') (?S ! i)"
      by simp
    moreover from i' have "?S ! i' = hsz"
      by (intro size_hid) simp_all
    ultimately have "has_shape env (Dot (hl ! i') (?W ! i')) n (?S ! i)"
      by (auto intro: has_shape_Dot)
    from eval_ZerosLike_shape [OF this] show ?thesis
      unfolding hl .
  qed
  from eval_ZerosLike_shape [OF x] h0
  have "eval env (hl ! 0) = Inr (Matrix n_in (replicate nX (replicate n_in 0)))"
    by simp
  with p u lhl lh odd_eq even_eq show ?thesis
    by auto
qed

theorem unpack_pack_layers_witness:
  "self_layer_sizes example_gsn = 2 # replicate (length (self_weights_list example_gsn)) 1
   \<and> 1 \<le> length (self_weights_list example_gsn)
   \<and> layers_shaped (example_run (\<lambda>k i j. Keep)) 1 (self_layer_sizes example_gsn) example_layers
   \<and> list_all (\<lambda>i. has_shape (example_run (\<lambda>k i j. Keep)) (self_weights_list example_gsn ! i)
          (self_layer_sizes example_gsn ! i) (self_layer_sizes example_gsn ! (i + 1)))
        [0..<length (self_weights_list example_gsn)]
   \<and> has_shape (example_run (\<lambda>k i j. Keep)) (self_X example_gsn) 1 2
   \<and> (\<exists>p hl. pack_hiddens example_layers = Inr p \<and> unpack_hiddens example_gsn p = Inr hl
        \<and> length hl = 4
        \<and> eval (example_run (\<lambda>k i j. Keep)) (hl ! 0) = Inr (Matrix 2 [[0, 0]])
        \<and> eval (example_run (\<lambda>k i j. Keep)) (hl ! 1) = Inr (Matrix 1 [[1]])
        \<and> eval (example_run (\<lambda>k i j. Keep)) (hl ! 2) = Inr (Matrix 1 [[0]])
        \<and> eval (example_run (\<lambda>k i j. Keep)) (hl ! 3) = Inr (Matrix 1 [[3]]))"
proof -
  let ?env = "example_run (\<lambda>k i j. Keep)"
  have s: "self_layer_sizes example_gsn = 2 # replicate (length (self_weights_list example_gsn)) 1"
    by (simp add: example_gsn_def numeral_3_eq_3)
  have l: "1 \<le> length (self_weights_list example_gsn)"
    by (simp add: example_gsn_def)
  have hs: "layers_shaped ?env 1 (self_layer_sizes example_gsn) example_layers"
    by (simp add: layers_shaped_def example_gsn_def example_layers_def has_shape_def
        example_run_def)
  have ws: "\<forall>i<length (self_weights_list example_gsn).
        has_shape ?env (self_weights_list example_gsn ! i) (self_layer_sizes example_gsn ! i)
          (self_layer_sizes example_gsn ! (i + 1))"
    by (simp add: example_gsn_def has_shape_def example_run_def All_less_Suc numeral_3_eq_3)
  have x: "has_shape ?env (self_X example_gsn) 1 2"
    by (simp add: example_gsn_def has_shape_def example_run_def)
  from unpack_pack_layers [OF s l hs ws x] obtain p hl where
    p: "pack_hiddens example_layers = Inr p" "unpack_hiddens example_gsn p = Inr hl"
    and len: "length hl = length example_layers"
    and odd: "\<forall>i<length example_layers. odd i \<longrightarrow> eval ?env (hl ! i) = eval ?env (example_layers ! i)"
    and h0: "eval ?env (hl ! 0) = Inr (Matrix 2 (replicate 1 (replicate 2 0)))"
    and even: "\<forall>i<length example_layers. even i \<and> 0 < i \<longrightarrow>
        eval ?env (hl ! i) = Inr (Matrix (self_layer_sizes example_gsn ! i)
          (replicate 1 (replicate (self_layer_sizes example_gsn ! i) 0)))"
    by blast
  from len have l4: "length hl = 4"
    by (simp add: example_layers_def)
  from h0 have e0: "eval ?env (hl ! 0) = Inr (Matrix 2 [[0, 0]])"
    by (simp add: numeral_2_eq_2)
  from odd [rule_format, of 1] have e1: "eval ?env (hl ! 1) = Inr (Matrix 1 [[1]])"
    by (simp add: example_layers_def example_run_def)
  from even [rule_format, of 2] have e2: "eval ?env (hl ! 2) = Inr (Matrix 1 [[0]])"
    by (simp add: example_layers_def example_gsn_def)
  from odd [rule_format, of 3] have e3: "eval ?env (hl ! 3) = Inr (Matrix 1 [[3]])"
    by (simp add: example_layers_def example_run_def)
  from ws have ws': "list_all (\<lambda>i. has_shape ?env (self_weights_list example_gsn ! i)
          (self_layer_sizes example_gsn ! i) (self_layer_sizes example_gsn ! (i + 1)))
        [0..<length (self_weights_list example_gsn)]"
    by (simp add: list_all_iff)
  from s l hs ws' x p l4 e0 e1 e2 e3 show ?thesis
    by blast
qed

end
